theory Spec2Isabelle
  imports Complex_Main "HOL-Library.Sublist" "HOL-Library.List_Lexorder" "HOL-Library.Char_ord"
begin

section \<open>Host values\<close>

text \<open>
  The dashboard is TypeScript running in a browser. The parts of the host the modelled
  code calls, and that the repository does not define, are gathered in a record that
  every function reading them takes as its first argument:
  \<^item> \<open>parseDate s\<close> is the time value of \<open>new Date(s)\<close> in milliseconds since the epoch,
    \<open>None\<close> when the string does not parse (an Invalid Date, whose time value is NaN);
  \<^item> \<open>startOfDay t\<close> and \<open>endOfDay t\<close> are the time values after \<open>setHours(0, 0, 0, 0)\<close>
    and \<open>setHours(23, 59, 59, 999)\<close> on a valid date (they depend on the local time zone);
  \<^item> \<open>localeCompare a b\<close> is \<open>a.localeCompare(b)\<close>.
\<close>

record host =
  parseDate :: "string \<Rightarrow> int option"
  startOfDay :: "int \<Rightarrow> int"
  endOfDay :: "int \<Rightarrow> int"
  localeCompare :: "string \<Rightarrow> string \<Rightarrow> int"

text \<open>
  A \<open>Date\<close> object is its time value: \<open>Some ms\<close>, or \<open>None\<close> for an Invalid Date.
  A relational comparison with an Invalid Date compares with NaN and is false.
\<close>

type_synonym Date = "int option"

definition newDate :: "host \<Rightarrow> string option \<Rightarrow> Date" where
  \<comment> \<open>\<open>new Date(s)\<close>; an absent field is \<open>undefined\<close>, and \<open>new Date(undefined)\<close> is invalid.\<close>
  "newDate h s = (case s of None \<Rightarrow> None | Some str \<Rightarrow> parseDate h str)"

definition date_lt :: "Date \<Rightarrow> Date \<Rightarrow> bool" where
  "date_lt a b = (case a of None \<Rightarrow> False | Some x \<Rightarrow> (case b of None \<Rightarrow> False | Some y \<Rightarrow> x < y))"

definition date_gt :: "Date \<Rightarrow> Date \<Rightarrow> bool" where
  "date_gt a b = date_lt b a"

definition setHoursStart :: "host \<Rightarrow> Date \<Rightarrow> Date" where
  "setHoursStart h d = map_option (startOfDay h) d"

definition setHoursEnd :: "host \<Rightarrow> Date \<Rightarrow> Date" where
  "setHoursEnd h d = map_option (endOfDay h) d"

text \<open>
  A JavaScript number that a comparator returns: \<open>Some r\<close>, or \<open>None\<close> for NaN.
  Floating-point rounding is not modelled: the quotients below are exact.
\<close>

type_synonym number = "real option"

definition num_sub :: "number \<Rightarrow> number \<Rightarrow> number" where
  "num_sub a b = (case a of None \<Rightarrow> None | Some x \<Rightarrow> (case b of None \<Rightarrow> None | Some y \<Rightarrow> Some (x - y)))"

definition num_neg :: "number \<Rightarrow> number" where
  "num_neg a = map_option uminus a"

definition getTime :: "Date \<Rightarrow> number" where
  "getTime d = map_option real_of_int d"

text \<open>
  \<open>Array.prototype.sort(comparefn)\<close> is stable; a comparator result that is NaN counts
  as \<open>+0\<close>. The model is the stable insertion sort: for a consistent comparator every
  stable sort returns the same list.
\<close>

definition positive :: "number \<Rightarrow> bool" where
  "positive v = (case v of None \<Rightarrow> False | Some r \<Rightarrow> 0 < r)"

fun insertBy :: "('a \<Rightarrow> 'a \<Rightarrow> number) \<Rightarrow> 'a \<Rightarrow> 'a list \<Rightarrow> 'a list" where
  "insertBy cmp x [] = [x]"
| "insertBy cmp x (y # ys) = (if positive (cmp x y) then y # insertBy cmp x ys else x # y # ys)"

definition sortBy :: "('a \<Rightarrow> 'a \<Rightarrow> number) \<Rightarrow> 'a list \<Rightarrow> 'a list" where
  "sortBy cmp xs = foldr (insertBy cmp) xs []"

text \<open>
  \<open>String.prototype.toLowerCase\<close>, \<open>trim\<close> and \<open>includes\<close> (here \<open>str_includes\<close>) on strings of 8-bit
  characters: letters \<open>A\<close> to \<open>Z\<close> are lowered, ASCII white space is trimmed.
\<close>

definition lowerChar :: "char \<Rightarrow> char" where
  "lowerChar c = (let n = (of_char c :: nat) in if 65 \<le> n \<and> n \<le> 90 then char_of (n + 32) else c)"

definition toLowerCase :: "string \<Rightarrow> string" where
  "toLowerCase s = map lowerChar s"

definition isSpace :: "char \<Rightarrow> bool" where
  "isSpace c = (let n = (of_char c :: nat) in n = 32 \<or> (9 \<le> n \<and> n \<le> 13))"

definition trim :: "string \<Rightarrow> string" where
  "trim s = rev (dropWhile isSpace (rev (dropWhile isSpace s)))"

fun str_includes :: "string \<Rightarrow> string \<Rightarrow> bool" where
  "str_includes [] q = (q = [])"
| "str_includes (c # cs) q = (prefix q (c # cs) \<or> str_includes cs q)"

section \<open>Overview page: product distribution (src/pages/Overview.tsx)\<close>

record DataEntry =
  timeCreated :: string
  salesPerson :: string
  salesEmail :: "string option"
  entryProduct :: "string option"
  bound :: "string option"

definition PRODUCT_COLORS :: "(string \<times> string) list" where
  "PRODUCT_COLORS = [(''Lead Gen'', ''#1E3A8A''), (''Local SEO'', ''#3B82F6''), (''LSA'', ''#93C5FD'')]"

definition PATHFINDER_INBOUND_TEAM :: "string list" where
  "PATHFINDER_INBOUND_TEAM =
     [''aaron.nixon@thrivemediagroup.co.uk'', ''hamid.hassan@thrivemediagroup.co.uk'',
      ''charlie.griffiths@thrivemediagroup.co.uk'', ''samuel.braniff@thrivemediagroup.co.uk'']"

definition PATHFINDER_OUTBOUND_TEAM :: "string list" where
  "PATHFINDER_OUTBOUND_TEAM =
     [''joe.richardson@thrivemediagroup.co.uk'', ''wesley.mcdonald@thrivemediagroup.co.uk'',
      ''padraig.anglin@thrivemediagroup.co.uk'', ''tommy.macfarlane@thrivemediagroup.co.uk'',
      ''james.clarke@thrivemediagroup.co.uk'']"

definition getPathfinderBound :: "string option \<Rightarrow> string option" where
  "getPathfinderBound email =
     (case email of
        None \<Rightarrow> None
      | Some e \<Rightarrow>
          if e = [] then None
          else (let normalizedEmail = trim (toLowerCase e) in
            if list_ex (\<lambda>m. toLowerCase m = normalizedEmail) PATHFINDER_INBOUND_TEAM then Some ''inbound''
            else if list_ex (\<lambda>m. toLowerCase m = normalizedEmail) PATHFINDER_OUTBOUND_TEAM then Some ''outbound''
            else None))"

text \<open>
  The filter state of the page: the two dates are \<open>undefined\<close> (\<open>None\<close>) until set, the
  agent and team filters hold the literal \<open>all\<close> or a selection.
\<close>

record OverviewFilters =
  startDate :: "Date option"
  endDate :: "Date option"
  agentFilter :: string
  boundFilter :: string

definition overviewDateOk :: "host \<Rightarrow> OverviewFilters \<Rightarrow> DataEntry \<Rightarrow> bool" where
  \<comment> \<open>The first five statements of both filter callbacks: false where they return false.\<close>
  "overviewDateOk h f entry =
     (let entryDate = newDate h (Some (timeCreated entry));
          start = map_option (setHoursStart h) (startDate f);
          end' = map_option (setHoursEnd h) (endDate f)
      in \<not> (case start of None \<Rightarrow> False | Some s \<Rightarrow> date_lt entryDate s)
         \<and> \<not> (case end' of None \<Rightarrow> False | Some e \<Rightarrow> date_gt entryDate e))"

definition filterPathfinderData :: "host \<Rightarrow> OverviewFilters \<Rightarrow> DataEntry list \<Rightarrow> DataEntry list" where
  "filterPathfinderData h f data =
     filter (\<lambda>entry.
       if \<not> overviewDateOk h f entry then False
       else if agentFilter f \<noteq> ''all'' \<and> salesPerson entry \<noteq> agentFilter f then False
       else if boundFilter f \<noteq> ''all'' then
         (let entryBound = getPathfinderBound (salesEmail entry) in
          if entryBound = None \<or> entryBound \<noteq> Some (boundFilter f) then False else True)
       else True) data"

definition filterKissData :: "host \<Rightarrow> OverviewFilters \<Rightarrow> DataEntry list \<Rightarrow> DataEntry list" where
  "filterKissData h f data =
     filter (\<lambda>entry.
       if \<not> overviewDateOk h f entry then False
       else if agentFilter f \<noteq> ''all'' \<and> salesPerson entry \<noteq> agentFilter f then False
       else if boundFilter f \<noteq> ''all'' then
         (let entryBound = map_option (\<lambda>b. trim (toLowerCase b)) (bound entry) in
          if entryBound = None \<or> entryBound = Some [] \<or> entryBound \<noteq> Some (boundFilter f) then False
          else True)
       else True) data"

definition combinedData :: "DataEntry list \<Rightarrow> DataEntry list \<Rightarrow> DataEntry list" where
  "combinedData filteredPathfinder filteredKiss = filteredPathfinder @ filteredKiss"

text \<open>
  \<open>calculateProductDistribution\<close>: the object literal is an association list in
  insertion order, which is the order \<open>Object.entries\<close> lists its three keys in.
\<close>

record ProductDistributionEntry =
  entry_name :: string
  entry_value :: nat
  entry_color :: "string option"

definition initialDistribution :: "(string \<times> nat) list" where
  "initialDistribution = [(''Lead Gen'', 0), (''Local SEO'', 0), (''LSA'', 0)]"

definition hasOwnProperty :: "(string \<times> 'v) list \<Rightarrow> string \<Rightarrow> bool" where
  "hasOwnProperty obj k = (k \<in> set (map fst obj))"

definition increment :: "(string \<times> nat) list \<Rightarrow> string \<Rightarrow> (string \<times> nat) list" where
  "increment obj k = map (\<lambda>(n, v). if n = k then (n, v + 1) else (n, v)) obj"

definition propertyKey :: "string option \<Rightarrow> string" where
  \<comment> \<open>The property key a value is converted to: an absent value is the key \<open>undefined\<close>.\<close>
  "propertyKey v = (case v of None \<Rightarrow> ''undefined'' | Some s \<Rightarrow> s)"

definition countProduct :: "(string \<times> nat) list \<Rightarrow> DataEntry \<Rightarrow> (string \<times> nat) list" where
  "countProduct distribution entry =
     (if hasOwnProperty distribution (propertyKey (entryProduct entry))
      then increment distribution (propertyKey (entryProduct entry)) else distribution)"

definition calculateProductDistribution :: "DataEntry list \<Rightarrow> ProductDistributionEntry list" where
  "calculateProductDistribution data =
     map (\<lambda>(n, v). \<lparr>entry_name = n, entry_value = v, entry_color = map_of PRODUCT_COLORS n\<rparr>)
       (filter (\<lambda>(n, v). 0 < v) (foldl countProduct initialDistribution data))"

definition bucketCount :: "ProductDistributionEntry list \<Rightarrow> string \<Rightarrow> nat" where
  \<comment> \<open>The count a chart shows for a product: that of its bucket, 0 when the bucket was discarded.\<close>
  "bucketCount buckets p = (case find (\<lambda>e. entry_name e = p) buckets of None \<Rightarrow> 0 | Some e \<Rightarrow> entry_value e)"

definition productNames :: "string list" where
  "productNames = map fst initialDistribution"

definition sampleEntry :: "string \<Rightarrow> string \<Rightarrow> string option \<Rightarrow> DataEntry" where
  "sampleEntry t agent p =
     \<lparr>timeCreated = t, salesPerson = agent, salesEmail = None, entryProduct = p, bound = None\<rparr>"

definition sampleEntries :: "DataEntry list" where
  "sampleEntries =
     [sampleEntry ''2024-01-05'' ''A'' (Some ''Lead Gen''), sampleEntry ''2024-01-05'' ''A'' (Some ''Other''),
      sampleEntry ''2024-01-10'' ''B'' None, sampleEntry ''2024-01-10'' ''B'' (Some ''Lead Gen'')]"

definition productCount :: "string \<Rightarrow> DataEntry list \<Rightarrow> nat" where
  \<comment> \<open>The number of entries whose product is the given name.\<close>
  "productCount p data = length (filter (\<lambda>e. entryProduct e = Some p) data)"

section \<open>The unified record and the KISS normalizer (src/types/business.ts)\<close>

datatype SessionType = Pathfinder | Kiss

datatype ident = NumId int | StrId string

text \<open>
  \<open>BusinessRecord\<close>, field by field (\<open>id\<close> is \<open>record_id\<close>, \<open>_sessionType\<close> is
  \<open>sessionType\<close>). The step counts are integers. The two time stamps are declared
  \<open>string\<close>, but the normalizer leaves them \<open>undefined\<close> when the raw record has neither
  source field, so they are optional here (\<open>None\<close> is \<open>undefined\<close>).
\<close>

record BusinessRecord =
  record_id :: ident
  session_id :: string
  google_id :: string
  google_full_name :: string
  google_email :: string
  step :: int
  total_steps :: int
  client_name :: string
  website_url :: string
  month_established :: "string option"
  year_established :: "string option"
  business_generation :: "string option"
  monthly_leads :: "string option"
  has_gmb :: "string option"
  diagnostic_answers :: string
  traffic_score :: "string option"
  conversions_score :: "string option"
  lead_management_score :: "string option"
  overall_score :: "string option"
  product :: "string option"
  smart_site_included :: "bool option"
  initial_cost :: "string option"
  monthly_cost :: "string option"
  contract_length :: "string option"
  start_time :: "string option"
  timestamp :: "string option"
  website_login_details :: "string option"
  vat_registered :: "string option"
  service_area :: "string option"
  capacity :: "string option"
  runs_ppc :: "string option"
  sessionType :: SessionType

text \<open>
  A raw KISS record as the webhook's JSON delivers it: the \<open>data\<close> object and each
  field the normalizer reads may be absent (\<open>None\<close>); the fields it does not read keep
  their declared types.
\<close>

record KissData =
  leadType :: string
  clientUrl :: "string option"
  createdAt :: "string option"
  sessionId :: "string option"
  updatedAt :: "string option"
  finalPrice :: "string option"
  prospectName :: "string option"
  colleagueName :: string
  currentScreen :: "int option"
  completedTasks :: "(string \<times> bool) list"
  contractLength :: "string option"
  salesPersonName :: "string option"
  selectedProduct :: "string option"
  selectedIndustry :: "string option"
  recommendedProduct :: "string option"
  acceptedInitialPrice :: bool

record KissRawRecord =
  kiss_id :: string
  kiss_data :: "KissData option"
  created_at :: "string option"
  updated_at :: "string option"
  completed :: bool

datatype js_error = TypeError

definition truthy :: "string option \<Rightarrow> bool" where
  \<comment> \<open>A string value is falsy when it is absent, \<open>null\<close> or empty.\<close>
  "truthy v = (case v of None \<Rightarrow> False | Some s \<Rightarrow> s \<noteq> [])"

definition or_else :: "string option \<Rightarrow> string option \<Rightarrow> string option" where
  \<comment> \<open>\<open>a || b\<close> on optional strings.\<close>
  "or_else a b = (if truthy a then a else b)"

definition or_default :: "string option \<Rightarrow> string \<Rightarrow> string" where
  \<comment> \<open>\<open>a || "literal"\<close>.\<close>
  "or_default a d = (case a of None \<Rightarrow> d | Some s \<Rightarrow> if s \<noteq> [] then s else d)"

definition or_null :: "string option \<Rightarrow> string option" where
  \<comment> \<open>\<open>a || null\<close>.\<close>
  "or_null a = (if truthy a then a else None)"

definition or_zero :: "int option \<Rightarrow> int" where
  \<comment> \<open>\<open>n || 0\<close>.\<close>
  "or_zero n = (case n of None \<Rightarrow> 0 | Some k \<Rightarrow> if k \<noteq> 0 then k else 0)"

definition normalizeKissRecord :: "KissRawRecord \<Rightarrow> js_error + BusinessRecord" where
  \<comment> \<open>Reading a property of an absent \<open>data\<close> object throws a TypeError.\<close>
  "normalizeKissRecord kiss =
     (case kiss_data kiss of
        None \<Rightarrow> Inl TypeError
      | Some d \<Rightarrow> Inr
          \<lparr>record_id = StrId (kiss_id kiss),
           session_id = or_default (sessionId d) (kiss_id kiss),
           google_id = [],
           google_full_name = or_default (salesPersonName d) ''Unknown'',
           google_email = [],
           step = or_zero (currentScreen d),
           total_steps = 2,
           client_name = or_default (prospectName d) ''Unknown'',
           website_url = or_default (clientUrl d) [],
           month_established = None,
           year_established = None,
           business_generation = None,
           monthly_leads = None,
           has_gmb = None,
           diagnostic_answers = ''{}'',
           traffic_score = None,
           conversions_score = None,
           lead_management_score = None,
           overall_score = None,
           product = or_null (or_else (selectedProduct d) (recommendedProduct d)),
           smart_site_included = None,
           initial_cost = None,
           monthly_cost = None,
           contract_length = or_null (contractLength d),
           start_time = or_else (created_at kiss) (createdAt d),
           timestamp = or_else (updated_at kiss) (updatedAt d),
           website_login_details = None,
           vat_registered = None,
           service_area = None,
           capacity = None,
           runs_ppc = None,
           sessionType = Kiss\<rparr>)"

section \<open>Results list (src/components/ResultsList.tsx)\<close>

datatype SortField =
  SortGoogleFullName | SortClientName | SortProduct | SortTimestamp | SortProgress | SortStatus
  | SortSessionType

datatype SortDir = Asc | Desc

definition ITEMS_PER_PAGE :: int where
  "ITEMS_PER_PAGE = 50"

record FilterState =
  searchQuery :: string
  productFilter :: string
  salesPersonFilter :: string
  contractLengthFilter :: string
  dateFrom :: "Date option"
  dateTo :: "Date option"

record SalesPersonCount =
  pathfinder :: nat
  kiss :: nat

record FilterOptions =
  products :: "string list"
  salesPersons :: "string list"
  contractLengths :: "string list"

text \<open>
  A \<open>Set\<close> of strings is the list of its members in insertion order. A plain object used
  as a dictionary is the association list of its own properties in insertion order (the
  lists read from it are sorted afterwards). Reading \<open>counts[name]\<close> on a plain object
  also finds the members it inherits from \<open>Object.prototype\<close>, named below as ECMAScript
  defines them; each is a function or an object, so it is truthy. For such a name the
  test \<open>!counts[name]\<close> fails, no own property is created, and the increment lands on the
  inherited member, where it leaves NaN: the object's own properties, which are all that
  \<open>Object.entries\<close> lists, stay as they were.
\<close>

definition objectPrototypeKeys :: "string list" where
  "objectPrototypeKeys =
     [''constructor'', ''__defineGetter__'', ''__defineSetter__'', ''hasOwnProperty'',
      ''__lookupGetter__'', ''__lookupSetter__'', ''isPrototypeOf'', ''propertyIsEnumerable'',
      ''toString'', ''valueOf'', ''__proto__'', ''toLocaleString'']"

definition lookupTruthy :: "(string \<times> 'v) list \<Rightarrow> string \<Rightarrow> bool" where
  \<comment> \<open>\<open>counts[name]\<close> is truthy: an own entry, or a member inherited from \<open>Object.prototype\<close>.\<close>
  "lookupTruthy counts k = (k \<in> set (map fst counts) \<or> k \<in> set objectPrototypeKeys)"

definition setAdd :: "string list \<Rightarrow> string \<Rightarrow> string list" where
  "setAdd xs x = (if x \<in> set xs then xs else xs @ [x])"

definition addIfTruthy :: "string list \<Rightarrow> string option \<Rightarrow> string list" where
  "addIfTruthy xs v = (case v of None \<Rightarrow> xs | Some s \<Rightarrow> if s \<noteq> [] then setAdd xs s else xs)"

definition ensureKey :: "(string \<times> SalesPersonCount) list \<Rightarrow> string \<Rightarrow> (string \<times> SalesPersonCount) list" where
  \<comment> \<open>\<open>if (!counts[name]) counts[name] = { pathfinder: 0, kiss: 0 }\<close>\<close>
  "ensureKey counts k =
     (if \<not> lookupTruthy counts k then counts @ [(k, \<lparr>pathfinder = 0, kiss = 0\<rparr>)] else counts)"

definition updateKey :: "(string \<times> 'v) list \<Rightarrow> string \<Rightarrow> ('v \<Rightarrow> 'v) \<Rightarrow> (string \<times> 'v) list" where
  "updateKey m k f = map (\<lambda>(k', v). if k' = k then (k', f v) else (k', v)) m"

definition countSession :: "(string \<times> SalesPersonCount) list \<Rightarrow> string \<Rightarrow> SessionType \<Rightarrow> (string \<times> SalesPersonCount) list" where
  \<comment> \<open>The increment changes the own entry of the name; on an inherited member it
     changes no own property.\<close>
  "countSession counts k t =
     (let counts1 = ensureKey counts k in
      if k \<in> set (map fst counts1)
      then updateKey counts1 k
             (\<lambda>c. if t = Kiss then c\<lparr>kiss := kiss c + 1\<rparr> else c\<lparr>pathfinder := pathfinder c + 1\<rparr>)
      else counts1)"

definition eligibleNames :: "(string \<times> SalesPersonCount) list \<Rightarrow> string list" where
  \<comment> \<open>\<open>Object.entries(counts).filter(...).map(([name]) => name).sort()\<close>\<close>
  "eligibleNames counts =
     sort (map fst (filter (\<lambda>(n, c). 0 < pathfinder c \<or> 5 < kiss c) counts))"

definition optionsStep ::
  "string list \<times> string list \<times> (string \<times> SalesPersonCount) list \<Rightarrow> BusinessRecord \<Rightarrow>
   string list \<times> string list \<times> (string \<times> SalesPersonCount) list" where
  "optionsStep acc r =
     (case acc of (ps, cls, counts) \<Rightarrow>
        (addIfTruthy ps (product r),
         addIfTruthy cls (contract_length r),
         (let name = google_full_name r in
          if name \<noteq> [] then countSession counts name (sessionType r) else counts)))"

definition filterOptions :: "BusinessRecord list \<Rightarrow> FilterOptions" where
  "filterOptions results =
     (case foldl optionsStep ([], [], []) results of (ps, cls, counts) \<Rightarrow>
        \<lparr>products = sort ps, salesPersons = eligibleNames counts, contractLengths = sort cls\<rparr>)"

definition matchesSearch :: "string \<Rightarrow> BusinessRecord \<Rightarrow> bool" where
  "matchesSearch q r =
     (str_includes (toLowerCase (client_name r)) q
      \<or> str_includes (toLowerCase (google_full_name r)) q
      \<or> (case product r of None \<Rightarrow> False | Some p \<Rightarrow> str_includes (toLowerCase p) q)
      \<or> str_includes (toLowerCase (website_url r)) q)"

definition resultsDateOk :: "host \<Rightarrow> FilterState \<Rightarrow> BusinessRecord \<Rightarrow> bool" where
  \<comment> \<open>The two date blocks of the filter callback: false where one of them returns false.\<close>
  "resultsDateOk h f r =
     (\<not> (case dateFrom f of None \<Rightarrow> False
          | Some from \<Rightarrow> date_lt (newDate h (timestamp r)) from)
      \<and> \<not> (case dateTo f of None \<Rightarrow> False
          | Some to \<Rightarrow> date_gt (newDate h (timestamp r)) (setHoursEnd h to)))"

definition matchesFilters :: "host \<Rightarrow> FilterState \<Rightarrow> BusinessRecord \<Rightarrow> bool" where
  "matchesFilters h f r =
     (if searchQuery f \<noteq> [] \<and> \<not> matchesSearch (toLowerCase (searchQuery f)) r then False
      else if productFilter f \<noteq> ''all'' \<and> product r \<noteq> Some (productFilter f) then False
      else if salesPersonFilter f \<noteq> ''all'' \<and> google_full_name r \<noteq> salesPersonFilter f then False
      else if contractLengthFilter f \<noteq> ''all'' \<and> contract_length r \<noteq> Some (contractLengthFilter f) then False
      else resultsDateOk h f r)"

definition filterResults :: "host \<Rightarrow> FilterState \<Rightarrow> BusinessRecord list \<Rightarrow> BusinessRecord list" where
  "filterResults h f results = filter (matchesFilters h f) results"

definition progress :: "BusinessRecord \<Rightarrow> real" where
  "progress r = (if 0 < total_steps r then real_of_int (step r) / real_of_int (total_steps r) else 0)"

definition isComplete :: "BusinessRecord \<Rightarrow> bool" where
  \<comment> \<open>The table row's \<open>isComplete\<close>, and the test of the status comparator.\<close>
  "isComplete r = (total_steps r \<le> step r)"

definition sessionTypeName :: "SessionType \<Rightarrow> string" where
  "sessionTypeName t = (case t of Pathfinder \<Rightarrow> ''pathfinder'' | Kiss \<Rightarrow> ''kiss'')"

definition compareRecords :: "host \<Rightarrow> SortField \<Rightarrow> BusinessRecord \<Rightarrow> BusinessRecord \<Rightarrow> number" where
  "compareRecords h field a b =
     (case field of
        SortGoogleFullName \<Rightarrow> Some (real_of_int (localeCompare h (google_full_name a) (google_full_name b)))
      | SortClientName \<Rightarrow> Some (real_of_int (localeCompare h (client_name a) (client_name b)))
      | SortProduct \<Rightarrow>
          Some (real_of_int (localeCompare h (or_default (product a) []) (or_default (product b) [])))
      | SortTimestamp \<Rightarrow>
          num_sub (getTime (newDate h (timestamp a))) (getTime (newDate h (timestamp b)))
      | SortProgress \<Rightarrow> Some (progress a - progress b)
      | SortStatus \<Rightarrow>
          (let aComplete = (if isComplete a then 1 else 0);
               bComplete = (if isComplete b then 1 else 0)
           in Some (aComplete - bComplete))
      | SortSessionType \<Rightarrow>
          Some (real_of_int (localeCompare h (sessionTypeName (sessionType a)) (sessionTypeName (sessionType b)))))"

definition sortComparator :: "host \<Rightarrow> SortField \<Rightarrow> SortDir \<Rightarrow> BusinessRecord \<Rightarrow> BusinessRecord \<Rightarrow> number" where
  "sortComparator h field dir a b =
     (let cmp = compareRecords h field a b in if dir = Asc then cmp else num_neg cmp)"

definition filteredAndSortedResults ::
  "host \<Rightarrow> FilterState \<Rightarrow> SortField \<Rightarrow> SortDir \<Rightarrow> BusinessRecord list \<Rightarrow> BusinessRecord list" where
  "filteredAndSortedResults h f field dir results =
     sortBy (sortComparator h field dir) (filterResults h f results)"

text \<open>
  \<open>Array.prototype.slice(start, end)\<close>: a negative index counts from the end, and both
  are clamped to the length.
\<close>

definition sliceIndex :: "nat \<Rightarrow> int \<Rightarrow> nat" where
  "sliceIndex len i = (if i < 0 then nat (max (int len + i) 0) else min (nat i) len)"

definition slice :: "'a list \<Rightarrow> int \<Rightarrow> int \<Rightarrow> 'a list" where
  "slice xs start end' =
     (let k = sliceIndex (length xs) start; final = sliceIndex (length xs) end'
      in take (final - k) (drop k xs))"

definition totalPages :: "'a list \<Rightarrow> int" where
  "totalPages filtered = max 1 \<lceil>real (length filtered) / real_of_int ITEMS_PER_PAGE\<rceil>"

definition paginatedResults :: "'a list \<Rightarrow> int \<Rightarrow> 'a list" where
  "paginatedResults filtered currentPage =
     (let start = (currentPage - 1) * ITEMS_PER_PAGE in slice filtered start (start + ITEMS_PER_PAGE))"

definition pages :: "'a list \<Rightarrow> 'a list list" where
  \<comment> \<open>The slices the pager can show: pages 1 to \<open>totalPages\<close>.\<close>
  "pages filtered = map (paginatedResults filtered) [1 .. totalPages filtered]"

section \<open>Record detail (src/pages/BusinessDetail.tsx)\<close>

definition detailIsComplete :: "BusinessRecord \<Rightarrow> bool" where
  \<comment> \<open>\<open>const isComplete = record.step >= record.total_steps\<close>\<close>
  "detailIsComplete r = (total_steps r \<le> step r)"

section \<open>Sales leaderboard (src/pages/SalesLeaderboard.tsx)\<close>

record SalespersonStats =
  name :: string
  pathfinderSessions :: "BusinessRecord list"
  kissSessions :: "BusinessRecord list"
  totalSessions :: nat
  averagePercentComplete :: real
  averageStep :: real
  completedSessions :: nat

datatype SessionTypeFilter = FilterAll | FilterType SessionType

record DateRange =
  range_from :: "Date option"
  range_to :: "Date option"

fun normalizeAll :: "KissRawRecord list \<Rightarrow> js_error + BusinessRecord list" where
  \<comment> \<open>\<open>kissRaw.map(normalizeKissRecord)\<close>: the first throw ends the map.\<close>
  "normalizeAll [] = Inr []"
| "normalizeAll (k # ks) =
     (case normalizeKissRecord k of
        Inl e \<Rightarrow> Inl e
      | Inr r \<Rightarrow> (case normalizeAll ks of Inl e \<Rightarrow> Inl e | Inr rs \<Rightarrow> Inr (r # rs)))"

definition fetchedSessions :: "BusinessRecord list \<Rightarrow> KissRawRecord list \<Rightarrow> js_error + BusinessRecord list" where
  \<comment> \<open>The session list \<open>fetchAllSessions\<close> stores: the Pathfinder records tagged, then the
     KISS records normalized. A throw is caught and nothing is stored.\<close>
  "fetchedSessions pathfinderRaw kissRaw =
     (let pathfinderRecords = map (\<lambda>r. r\<lparr>sessionType := Pathfinder\<rparr>) pathfinderRaw in
      case normalizeAll kissRaw of
        Inl e \<Rightarrow> Inl e
      | Inr kissRecords \<Rightarrow> Inr (pathfinderRecords @ kissRecords))"

definition filteredSessions ::
  "host \<Rightarrow> SessionTypeFilter \<Rightarrow> DateRange \<Rightarrow> BusinessRecord list \<Rightarrow> BusinessRecord list" where
  "filteredSessions h sessionTypeFilter dateRange sessions =
     filter (\<lambda>session.
       if sessionTypeFilter \<noteq> FilterAll \<and> FilterType (sessionType session) \<noteq> sessionTypeFilter then False
       else (let d = newDate h (or_else (timestamp session) (start_time session)) in
         if (case range_from dateRange of None \<Rightarrow> False | Some from \<Rightarrow> date_lt d from) then False
         else (case range_to dateRange of None \<Rightarrow> True
               | Some to \<Rightarrow> \<not> date_gt d (setHoursEnd h to)))) sessions"

definition newStats :: "string \<Rightarrow> SalespersonStats" where
  "newStats n =
     \<lparr>name = n, pathfinderSessions = [], kissSessions = [], totalSessions = 0,
      averagePercentComplete = 0, averageStep = 0, completedSessions = 0\<rparr>"

definition ensureStats :: "(string \<times> SalespersonStats) list \<Rightarrow> string \<Rightarrow> (string \<times> SalespersonStats) list" where
  \<comment> \<open>\<open>if (!statsMap.has(name)) statsMap.set(name, {...})\<close>: a \<open>Map\<close> keeps insertion order.\<close>
  "ensureStats statsMap n =
     (if n \<in> set (map fst statsMap) then statsMap else statsMap @ [(n, newStats n)])"

definition recordSession :: "BusinessRecord \<Rightarrow> SalespersonStats \<Rightarrow> SalespersonStats" where
  "recordSession session stats =
     (let stats1 = (if sessionType session = Kiss
                    then stats\<lparr>kissSessions := kissSessions stats @ [session]\<rparr>
                    else stats\<lparr>pathfinderSessions := pathfinderSessions stats @ [session]\<rparr>);
          stats2 = stats1\<lparr>totalSessions := totalSessions stats1 + 1\<rparr>
      in if total_steps session \<le> step session
         then stats2\<lparr>completedSessions := completedSessions stats2 + 1\<rparr> else stats2)"

definition addSession :: "(string \<times> SalespersonStats) list \<Rightarrow> BusinessRecord \<Rightarrow> (string \<times> SalespersonStats) list" where
  "addSession statsMap session =
     (let n = google_full_name session in
      if n = [] then statsMap
      else updateKey (ensureStats statsMap n) n (recordSession session))"

definition withAverages :: "SalespersonStats \<Rightarrow> SalespersonStats" where
  "withAverages stats =
     (let both = pathfinderSessions stats @ kissSessions stats;
          totalPercent = foldl (\<lambda>acc s. acc + (if 0 < total_steps s
                            then real_of_int (step s) / real_of_int (total_steps s) * 100 else 0)) 0 both;
          totalSteps = foldl (\<lambda>acc s. acc + real_of_int (step s)) 0 both
      in stats\<lparr>averagePercentComplete :=
                  (if 0 < totalSessions stats then totalPercent / real (totalSessions stats) else 0),
               averageStep :=
                  (if 0 < totalSessions stats then totalSteps / real (totalSessions stats) else 0)\<rparr>)"

definition keepGroup :: "SessionTypeFilter \<Rightarrow> SalespersonStats \<Rightarrow> bool" where
  "keepGroup sessionTypeFilter s =
     (if sessionTypeFilter = FilterType Kiss then 5 < length (kissSessions s)
      else if sessionTypeFilter = FilterType Pathfinder then 0 < length (pathfinderSessions s)
      else 0 < length (pathfinderSessions s) \<or> 5 < length (kissSessions s))"

definition statsMapOf :: "BusinessRecord list \<Rightarrow> (string \<times> SalespersonStats) list" where
  \<comment> \<open>The map after the two \<open>forEach\<close> passes.\<close>
  "statsMapOf sessions = map (\<lambda>(n, s). (n, withAverages s)) (foldl addSession [] sessions)"

definition leaderboardStats :: "BusinessRecord list \<Rightarrow> SessionTypeFilter \<Rightarrow> SalespersonStats list" where
  "leaderboardStats sessions sessionTypeFilter =
     sortBy (\<lambda>a b. Some (averagePercentComplete b - averagePercentComplete a))
       (filter (keepGroup sessionTypeFilter) (map snd (statsMapOf sessions)))"

section \<open>Overview page: agent list (src/pages/Overview.tsx)\<close>

definition countAgent :: "SessionType \<Rightarrow> (string \<times> SalesPersonCount) list \<Rightarrow> DataEntry \<Rightarrow> (string \<times> SalesPersonCount) list" where
  "countAgent t agentCounts entry = countSession agentCounts (salesPerson entry) t"

definition allAgents :: "DataEntry list \<Rightarrow> DataEntry list \<Rightarrow> string list" where
  "allAgents pathfinderData kissData =
     eligibleNames (foldl (countAgent Kiss) (foldl (countAgent Pathfinder) [] pathfinderData) kissData)"

section \<open>Counts the properties are stated with\<close>

text \<open>
  The records of one session type that carry a salesperson name, the overview entries
  of an agent, the tally of a key in a list of keyed session types, the group of a name
  as the first pass over the sessions leaves it, the eligibility rule of the
  leaderboard stated on the records of a name, and the names of the groups.
\<close>

definition recordsOf :: "SessionType \<Rightarrow> string \<Rightarrow> BusinessRecord list \<Rightarrow> BusinessRecord list" where
  "recordsOf t n rs = filter (\<lambda>r. google_full_name r = n \<and> sessionType r = t) rs"

definition entriesOf :: "string \<Rightarrow> DataEntry list \<Rightarrow> DataEntry list" where
  "entriesOf n es = filter (\<lambda>e. salesPerson e = n) es"

definition tallyOf :: "string \<Rightarrow> (string \<times> SessionType) list \<Rightarrow> SalesPersonCount" where
  "tallyOf k kts =
     \<lparr>pathfinder = length (filter (\<lambda>p. p = (k, Pathfinder)) kts),
      kiss = length (filter (\<lambda>p. p = (k, Kiss)) kts)\<rparr>"

definition groupOf :: "string \<Rightarrow> BusinessRecord list \<Rightarrow> SalespersonStats" where
  "groupOf n rs =
     \<lparr>name = n, pathfinderSessions = recordsOf Pathfinder n rs, kissSessions = recordsOf Kiss n rs,
      totalSessions = length (filter (\<lambda>r. google_full_name r = n) rs),
      averagePercentComplete = 0, averageStep = 0,
      completedSessions = length (filter (\<lambda>r. google_full_name r = n \<and> total_steps r \<le> step r) rs)\<rparr>"

definition keptName :: "SessionTypeFilter \<Rightarrow> string \<Rightarrow> BusinessRecord list \<Rightarrow> bool" where
  "keptName sessionTypeFilter n rs =
     (if sessionTypeFilter = FilterType Kiss then 5 < length (recordsOf Kiss n rs)
      else if sessionTypeFilter = FilterType Pathfinder then 0 < length (recordsOf Pathfinder n rs)
      else 0 < length (recordsOf Pathfinder n rs) \<or> 5 < length (recordsOf Kiss n rs))"

definition groupNames :: "BusinessRecord list \<Rightarrow> string list" where
  "groupNames rs = map fst (foldl addSession [] rs)"

section \<open>Sample host and records\<close>

text \<open>
  A host for the examples: UTC as the local time zone, the dates of the examples
  parsed as \<open>new Date\<close> parses them (a date-only ISO string is midnight UTC), any other
  string taken as unparseable, and strings compared by code unit.
\<close>

definition sampleParse :: "string \<Rightarrow> int option" where
  "sampleParse s =
     (if s = ''2024-01-05'' then Some 1704412800000
      else if s = ''2024-01-05T09:30:00Z'' then Some 1704447000000
      else if s = ''2024-01-10'' then Some 1704844800000
      else None)"

definition sampleHost :: host where
  "sampleHost =
     \<lparr>parseDate = sampleParse,
      startOfDay = (\<lambda>t. t - t mod 86400000),
      endOfDay = (\<lambda>t. t - t mod 86400000 + 86399999),
      localeCompare = (\<lambda>a b. if a < b then - 1 else if a = b then 0 else 1)\<rparr>"

definition sampleRecord :: "string \<Rightarrow> SessionType \<Rightarrow> int \<Rightarrow> int \<Rightarrow> string option \<Rightarrow> BusinessRecord" where
  "sampleRecord salesperson t s n ts =
     \<lparr>record_id = NumId 1, session_id = ''s'', google_id = ''g'', google_full_name = salesperson,
      google_email = ''a@example.com'', step = s, total_steps = n, client_name = ''Client'',
      website_url = ''example.com'', month_established = None, year_established = None,
      business_generation = None, monthly_leads = None, has_gmb = None, diagnostic_answers = ''{}'',
      traffic_score = None, conversions_score = None, lead_management_score = None,
      overall_score = None, product = Some ''Lead Gen'', smart_site_included = None,
      initial_cost = None, monthly_cost = None, contract_length = None, start_time = ts,
      timestamp = ts, website_login_details = None, vat_registered = None, service_area = None,
      capacity = None, runs_ppc = None, sessionType = t\<rparr>"

definition noFilters :: FilterState where
  "noFilters =
     \<lparr>searchQuery = [], productFilter = ''all'', salesPersonFilter = ''all'',
      contractLengthFilter = ''all'', dateFrom = None, dateTo = None\<rparr>"

definition sampleKissData :: KissData where
  "sampleKissData =
     \<lparr>leadType = ''inbound'', clientUrl = None, createdAt = Some ''2024-01-05'', sessionId = None,
      updatedAt = Some ''2024-01-10'', finalPrice = None, prospectName = Some [],
      colleagueName = ''C'', currentScreen = None, completedTasks = [], contractLength = None,
      salesPersonName = None, selectedProduct = None, selectedIndustry = None,
      recommendedProduct = Some ''LSA'', acceptedInitialPrice = False\<rparr>"

definition sampleKissRaw :: "KissData option \<Rightarrow> KissRawRecord" where
  "sampleKissRaw d =
     \<lparr>kiss_id = ''k1'', kiss_data = d, created_at = None, updated_at = None, completed = False\<rparr>"

definition sampleUndated :: BusinessRecord where
  "sampleUndated = sampleRecord ''A'' Pathfinder 1 8 (Some ''not a date'')"

definition sampleEarly :: BusinessRecord where
  "sampleEarly = sampleRecord ''B'' Pathfinder 2 8 (Some ''2024-01-05'')"

definition sampleLate :: BusinessRecord where
  "sampleLate = sampleRecord ''C'' Kiss 2 2 (Some ''2024-01-10'')"

definition sampleRange :: "int \<Rightarrow> int \<Rightarrow> FilterState" where
  "sampleRange lo hi = noFilters\<lparr>dateFrom := Some (Some lo), dateTo := Some (Some hi)\<rparr>"

definition sampleOverviewRange :: "int \<Rightarrow> int \<Rightarrow> OverviewFilters" where
  "sampleOverviewRange lo hi =
     \<lparr>startDate = Some (Some lo), endDate = Some (Some hi), agentFilter = ''all'', boundFilter = ''all''\<rparr>"


text \<open>The time value of a record whose time stamp parses.\<close>

definition timeOf :: "host \<Rightarrow> BusinessRecord \<Rightarrow> int" where
  "timeOf h r = the (newDate h (timestamp r))"

definition sampleNameless :: BusinessRecord where
  "sampleNameless = sampleRecord [] Pathfinder 1 8 (Some ''2024-01-05'')"

definition sampleInherited :: BusinessRecord where
  "sampleInherited = sampleRecord ''constructor'' Pathfinder 1 8 (Some ''2024-01-05'')"

definition sampleScenario :: "BusinessRecord list" where
  "sampleScenario =
     [sampleRecord ''A'' Pathfinder 2 8 (Some ''2024-01-05''),
      sampleRecord ''A'' Pathfinder 8 8 (Some ''2024-01-10'')]"

section \<open>Properties of the product distribution\<close>

lemma tally_explicit:
  "foldl countProduct [(''Lead Gen'', a), (''Local SEO'', b), (''LSA'', c)] data =
     [(''Lead Gen'', a + productCount ''Lead Gen'' data),
      (''Local SEO'', b + productCount ''Local SEO'' data),
      (''LSA'', c + productCount ''LSA'' data)]"
  by (induction data arbitrary: a b c)
    (simp_all add: countProduct_def hasOwnProperty_def increment_def propertyKey_def productCount_def
      split: option.splits)

lemma tally_initial:
  "foldl countProduct initialDistribution data =
     [(''Lead Gen'', productCount ''Lead Gen'' data),
      (''Local SEO'', productCount ''Local SEO'' data),
      (''LSA'', productCount ''LSA'' data)]"
  unfolding initialDistribution_def using tally_explicit [of 0 0 0 data] by simp

lemma productNames_eq: "productNames = [''Lead Gen'', ''Local SEO'', ''LSA'']"
  by (simp add: productNames_def initialDistribution_def)

lemma named_count:
  "length (filter (\<lambda>e. entryProduct e \<in> Some ` set productNames) data) =
     productCount ''Lead Gen'' data + productCount ''Local SEO'' data + productCount ''LSA'' data"
  by (induction data) (auto simp: productNames_eq productCount_def)

lemma dist_sum:
  "sum_list (map entry_value (calculateProductDistribution data)) =
     productCount ''Lead Gen'' data + productCount ''Local SEO'' data + productCount ''LSA'' data"
  by (simp add: calculateProductDistribution_def tally_initial)

lemma dist_bucket:
  "bucketCount (calculateProductDistribution data) p =
     (if p \<in> set productNames then productCount p data else 0)"
  by (simp add: calculateProductDistribution_def tally_initial bucketCount_def productNames_eq)

lemma dist_positive:
  "b \<in> set (calculateProductDistribution data) \<Longrightarrow>
     0 < entry_value b \<and> entry_name b \<in> set productNames"
  by (auto simp add: calculateProductDistribution_def tally_initial productNames_eq split: if_splits)

lemma dist_distinct: "distinct (map entry_name (calculateProductDistribution data))"
  by (simp add: calculateProductDistribution_def tally_initial)

lemma dist_ignores:
  "calculateProductDistribution (filter (\<lambda>e. entryProduct e \<in> Some ` set productNames) data) =
     calculateProductDistribution data"
proof -
  have "productCount p (filter (\<lambda>e. entryProduct e \<in> Some ` set productNames) data) = productCount p data"
    if "p \<in> set productNames" for p
    using that unfolding productCount_def filter_filter
    by (intro arg_cong [where f = length] filter_cong) auto
  then show ?thesis
    by (simp add: calculateProductDistribution_def tally_initial productNames_eq)
qed

text \<open>
  C6. The product distribution has one bucket for each of Lead Gen, Local SEO and LSA:
  a bucket's count is the number of entries with that product, the counts of the
  buckets returned sum to the number of entries whose product is one of the three
  names, entries with another or no product change nothing, and a bucket is returned
  only with a positive count, at most once.
\<close>

theorem product_distribution_counts:
  "productNames = [''Lead Gen'', ''Local SEO'', ''LSA'']
   \<and> sum_list (map entry_value (calculateProductDistribution data)) =
       length (filter (\<lambda>e. entryProduct e \<in> Some ` set productNames) data)
   \<and> (\<forall>p. bucketCount (calculateProductDistribution data) p =
         (if p \<in> set productNames then productCount p data else 0))
   \<and> calculateProductDistribution (filter (\<lambda>e. entryProduct e \<in> Some ` set productNames) data) =
       calculateProductDistribution data
   \<and> (\<forall>b \<in> set (calculateProductDistribution data). 0 < entry_value b \<and> entry_name b \<in> set productNames)
   \<and> distinct (map entry_name (calculateProductDistribution data))"
  using productNames_eq dist_sum [of data] named_count [of data] dist_bucket [of data]
    dist_ignores [of data] dist_positive [of _ data] dist_distinct [of data]
  by (intro conjI allI ballI) simp_all

theorem product_distribution_counts_witness:
  "sum_list (map entry_value (calculateProductDistribution sampleEntries)) = 2
   \<and> bucketCount (calculateProductDistribution sampleEntries) ''Lead Gen'' = 2
   \<and> bucketCount (calculateProductDistribution sampleEntries) ''Other'' = 0"
proof -
  have "length (filter (\<lambda>e. entryProduct e \<in> Some ` set productNames) sampleEntries) = 2"
    and "productCount ''Lead Gen'' sampleEntries = 2"
    by (simp_all add: sampleEntries_def sampleEntry_def productNames_eq productCount_def)
  with product_distribution_counts [of sampleEntries] show ?thesis
    by (simp add: productNames_eq)
qed

text \<open>
  C10. The combined chart counts the Pathfinder entries followed by the KISS entries,
  and for every product its count is the sum of the counts of the two separate charts,
  a discarded bucket counting as 0.
\<close>

theorem combined_distribution_additive:
  "bucketCount (calculateProductDistribution (combinedData filteredPathfinder filteredKiss)) p =
     bucketCount (calculateProductDistribution filteredPathfinder) p
     + bucketCount (calculateProductDistribution filteredKiss) p"
  by (simp add: dist_bucket combinedData_def productCount_def)

section \<open>Properties of the KISS normalizer\<close>

lemma normalize_throws:
  "kiss_data raw = None \<Longrightarrow> normalizeKissRecord raw = Inl TypeError"
  by (simp add: normalizeKissRecord_def)

text \<open>
  C8, as stated, fails: a raw record that arrives without its \<open>data\<close> object makes the
  normalizer throw.
\<close>

theorem normalize_throws_without_data:
  "normalizeKissRecord (sampleKissRaw None) = Inl TypeError"
  by (simp add: normalizeKissRecord_def sampleKissRaw_def)

text \<open>
  C8, amended. For every raw KISS record that carries its \<open>data\<close> object, normalization
  returns a record tagged \<open>Kiss\<close> in which an absent (or zero) step number is 0 and a
  present one is kept, an absent or empty salesperson or client name is the literal
  Unknown and a present one is kept, the diagnostics field is the literal \<open>{}\<close>, and
  \<open>total_steps\<close> is the positive constant 2.
\<close>

theorem normalize_defaults:
  "kiss_data raw = Some d \<Longrightarrow>
    (\<exists>r. normalizeKissRecord raw = Inr r
      \<and> sessionType r = Kiss
      \<and> step r = (case currentScreen d of None \<Rightarrow> 0 | Some n \<Rightarrow> n)
      \<and> google_full_name r = (if truthy (salesPersonName d) then the (salesPersonName d) else ''Unknown'')
      \<and> client_name r = (if truthy (prospectName d) then the (prospectName d) else ''Unknown'')
      \<and> diagnostic_answers r = ''{}''
      \<and> total_steps r = 2 \<and> 0 < total_steps r
      \<and> google_full_name r \<noteq> [] \<and> client_name r \<noteq> [])"
  by (auto simp add: normalizeKissRecord_def or_zero_def or_default_def truthy_def split: option.splits)

theorem normalize_defaults_witness:
  "\<exists>r. normalizeKissRecord (sampleKissRaw (Some sampleKissData)) = Inr r
     \<and> sessionType r = Kiss \<and> step r = 0 \<and> google_full_name r = ''Unknown''
     \<and> client_name r = ''Unknown'' \<and> diagnostic_answers r = ''{}'' \<and> total_steps r = 2"
proof -
  have "kiss_data (sampleKissRaw (Some sampleKissData)) = Some sampleKissData"
    by (simp add: sampleKissRaw_def)
  from normalize_defaults [OF this] obtain r where
    r: "normalizeKissRecord (sampleKissRaw (Some sampleKissData)) = Inr r"
      "sessionType r = Kiss"
      "step r = (case currentScreen sampleKissData of None \<Rightarrow> 0 | Some n \<Rightarrow> n)"
      "google_full_name r =
        (if truthy (salesPersonName sampleKissData) then the (salesPersonName sampleKissData) else ''Unknown'')"
      "client_name r =
        (if truthy (prospectName sampleKissData) then the (prospectName sampleKissData) else ''Unknown'')"
      "diagnostic_answers r = ''{}''" "total_steps r = 2"
    by blast
  have "step r = 0" "google_full_name r = ''Unknown''" "client_name r = ''Unknown''"
    using r(3,4,5) by (simp_all add: sampleKissData_def truthy_def)
  with r(1,2,6,7) show ?thesis by blast
qed

section \<open>Properties of the results list\<close>

text \<open>
  C3. For every record list and every filter state, the filter step returns a
  subsequence of its input (so a subset of it, in the input's order), it is a function
  of the list and the filter state alone, and filtering its own output again with the
  same filter state changes nothing.
\<close>

theorem filter_subset_idempotent:
  "subseq (filterResults h f results) results
   \<and> set (filterResults h f results) \<subseteq> set results
   \<and> filterResults h f (filterResults h f results) = filterResults h f results"
  by (simp add: filterResults_def)

lemma insertBy_insort:
  fixes k :: "'a \<Rightarrow> int"
  assumes "\<forall>y \<in> set ys. positive (cmp x y) \<longleftrightarrow> k y < k x"
  shows "insertBy cmp x ys = insort_key k x ys"
  using assms by (induction ys) auto

lemma sortBy_sort_key:
  fixes k :: "'a \<Rightarrow> int"
  assumes "\<forall>x \<in> set xs. \<forall>y \<in> set xs. positive (cmp x y) \<longleftrightarrow> k y < k x"
  shows "sortBy cmp xs = sort_key k xs"
  using assms
proof (induction xs)
  case Nil
  show ?case by (simp add: sortBy_def)
next
  case (Cons x xs)
  then have "sortBy cmp xs = sort_key k xs" by simp
  moreover have "insertBy cmp x (sort_key k xs) = insort_key k x (sort_key k xs)"
    using Cons.prems by (intro insertBy_insort) simp
  ultimately show ?case by (simp add: sortBy_def sort_key_def)
qed

lemma sort_key_neg_rev:
  fixes k :: "'a \<Rightarrow> int"
  assumes "distinct (map k xs)"
  shows "sort_key (\<lambda>x. - k x) xs = rev (sort_key k xs)"
proof -
  let ?n = "\<lambda>x. - k x"
  have inj: "inj_on ?n (set xs)"
    using assms by (auto simp: distinct_map inj_on_def)
  have s1: "sorted (map ?n (sort_key ?n xs))" by simp
  have "sorted (map k (sort_key k xs))" by simp
  then have s2: "sorted (map ?n (rev (sort_key k xs)))"
    by (simp add: sorted_wrt_rev sorted_wrt_map rev_map [symmetric] del: sorted_sort_key sorted_map)
  have dx: "distinct xs"
    using assms by (simp add: distinct_map)
  have d1: "distinct (map ?n (sort_key ?n xs))"
    using dx inj by (simp add: distinct_map)
  have d2: "distinct (map ?n (rev (sort_key k xs)))"
    using dx inj by (simp add: distinct_map)
  have "set (map ?n (sort_key ?n xs)) = set (map ?n (rev (sort_key k xs)))"
    by simp
  with s1 d1 s2 d2 have "map ?n (sort_key ?n xs) = map ?n (rev (sort_key k xs))"
    by (rule sorted_distinct_set_unique)
  moreover have "inj_on ?n (set (sort_key ?n xs) \<union> set (rev (sort_key k xs)))"
    using inj by simp
  ultimately show ?thesis
    by (rule map_inj_on)
qed

lemma timestamp_cmp:
  assumes "newDate h (timestamp a) \<noteq> None" "newDate h (timestamp b) \<noteq> None"
  shows "positive (sortComparator h SortTimestamp Asc a b) \<longleftrightarrow> timeOf h b < timeOf h a"
    and "positive (sortComparator h SortTimestamp Desc a b) \<longleftrightarrow> - timeOf h b < - timeOf h a"
  using assms
  by (auto simp add: sortComparator_def compareRecords_def num_sub_def num_neg_def getTime_def
      positive_def timeOf_def)

text \<open>
  C5, as stated, fails: a time stamp that does not parse compares as NaN, which the
  sort takes as equal, so a two-record list with distinct time stamps, one of them
  unparseable, keeps its order in both directions.
\<close>

theorem timestamp_sort_counterexample:
  "distinct (map timestamp [sampleUndated, sampleEarly])
   \<and> filteredAndSortedResults sampleHost noFilters SortTimestamp Asc [sampleUndated, sampleEarly]
       = [sampleUndated, sampleEarly]
   \<and> filteredAndSortedResults sampleHost noFilters SortTimestamp Desc [sampleUndated, sampleEarly]
       = [sampleUndated, sampleEarly]
   \<and> filteredAndSortedResults sampleHost noFilters SortTimestamp Desc [sampleUndated, sampleEarly]
       \<noteq> rev (filteredAndSortedResults sampleHost noFilters SortTimestamp Asc [sampleUndated, sampleEarly])"
  by (simp add: filteredAndSortedResults_def filterResults_def matchesFilters_def resultsDateOk_def
      noFilters_def sortBy_def sortComparator_def compareRecords_def num_sub_def num_neg_def
      getTime_def positive_def newDate_def sampleHost_def sampleParse_def sampleUndated_def
      sampleEarly_def sampleRecord_def)

text \<open>
  C5, amended. For every record list in which every time stamp parses and the parsed
  time values are pairwise distinct, and for every filter state, the list sorted by
  time stamp in descending direction is the reverse of the list sorted in ascending
  direction.
\<close>

theorem timestamp_desc_is_reverse_asc:
  assumes valid: "\<forall>r \<in> set results. newDate h (timestamp r) \<noteq> None"
    and dist: "distinct (map (\<lambda>r. newDate h (timestamp r)) results)"
  shows "filteredAndSortedResults h f SortTimestamp Desc results =
         rev (filteredAndSortedResults h f SortTimestamp Asc results)"
proof -
  let ?xs = "filterResults h f results"
  have sub: "set ?xs \<subseteq> set results"
    by (simp add: filterResults_def)
  have asc: "sortBy (sortComparator h SortTimestamp Asc) ?xs = sort_key (timeOf h) ?xs"
    using sub valid by (intro sortBy_sort_key ballI timestamp_cmp) auto
  have desc: "sortBy (sortComparator h SortTimestamp Desc) ?xs = sort_key (\<lambda>r. - timeOf h r) ?xs"
    using sub valid by (intro sortBy_sort_key ballI timestamp_cmp) auto
  have inj: "inj_on (\<lambda>r. newDate h (timestamp r)) (set results)" and "distinct results"
    using dist by (simp_all add: distinct_map)
  have "inj_on (timeOf h) (set results)"
  proof (rule inj_onI)
    fix x y
    assume x: "x \<in> set results" and y: "y \<in> set results" and eq: "timeOf h x = timeOf h y"
    from valid x y obtain a b where ab: "newDate h (timestamp x) = Some a" "newDate h (timestamp y) = Some b"
      by blast
    with eq have "a = b" by (simp add: timeOf_def)
    with ab have "newDate h (timestamp x) = newDate h (timestamp y)" by simp
    with inj x y show "x = y" by (simp add: inj_on_def)
  qed
  then have "inj_on (timeOf h) (set ?xs)"
    using sub by (rule inj_on_subset)
  moreover have "distinct ?xs"
    using \<open>distinct results\<close> by (simp add: filterResults_def)
  ultimately have "distinct (map (timeOf h) ?xs)"
    by (simp add: distinct_map)
  then show ?thesis
    unfolding filteredAndSortedResults_def asc desc by (rule sort_key_neg_rev)
qed


theorem timestamp_desc_is_reverse_asc_witness:
  "filteredAndSortedResults sampleHost noFilters SortTimestamp Desc [sampleEarly, sampleLate] =
     rev (filteredAndSortedResults sampleHost noFilters SortTimestamp Asc [sampleEarly, sampleLate])"
proof -
  have v: "\<forall>r \<in> set [sampleEarly, sampleLate]. newDate sampleHost (timestamp r) \<noteq> None"
    by (simp add: newDate_def sampleHost_def sampleParse_def sampleEarly_def sampleLate_def sampleRecord_def)
  have d: "distinct (map (\<lambda>r. newDate sampleHost (timestamp r)) [sampleEarly, sampleLate])"
    by (simp add: newDate_def sampleHost_def sampleParse_def sampleEarly_def sampleLate_def sampleRecord_def)
  from timestamp_desc_is_reverse_asc [OF v d] show ?thesis .
qed

lemma results_date_ok:
  assumes "newDate h (timestamp r) = Some t"
    and "dateFrom f = map_option Some lo" and "dateTo f = map_option Some hi"
  shows "resultsDateOk h f r \<longleftrightarrow>
     (case lo of None \<Rightarrow> True | Some l \<Rightarrow> l \<le> t) \<and> (case hi of None \<Rightarrow> True | Some u \<Rightarrow> t \<le> endOfDay h u)"
  using assms
  by (auto simp add: resultsDateOk_def date_lt_def date_gt_def setHoursEnd_def split: option.splits)

lemma overview_date_ok:
  assumes "newDate h (Some (timeCreated e)) = Some t"
    and "startDate g = map_option Some lo" and "endDate g = map_option Some hi"
  shows "overviewDateOk h g e \<longleftrightarrow>
     (case lo of None \<Rightarrow> True | Some l \<Rightarrow> startOfDay h l \<le> t)
     \<and> (case hi of None \<Rightarrow> True | Some u \<Rightarrow> t \<le> endOfDay h u)"
  using assms
  by (auto simp add: overviewDateOk_def date_lt_def date_gt_def setHoursEnd_def setHoursStart_def Let_def
      split: option.splits)

lemma undated_admitted:
  "newDate h (timestamp r) = None \<Longrightarrow> resultsDateOk h f r"
  "newDate h (Some (timeCreated e)) = None \<Longrightarrow> overviewDateOk h g e"
  by (auto simp add: resultsDateOk_def overviewDateOk_def date_lt_def date_gt_def Let_def split: option.splits)

lemma date_part_of_filters:
  "set (filterResults h f results) = {r \<in> set results. resultsDateOk h f r \<and> matchesFilters h f r}"
  "set (filterPathfinderData h g data) \<subseteq> {e \<in> set data. overviewDateOk h g e}"
  "set (filterKissData h g data) \<subseteq> {e \<in> set data. overviewDateOk h g e}"
  by (auto simp add: filterResults_def matchesFilters_def filterPathfinderData_def filterKissData_def
      split: if_splits)

lemma date_only_filters:
  "searchQuery f = [] \<Longrightarrow> productFilter f = ''all'' \<Longrightarrow> salesPersonFilter f = ''all'' \<Longrightarrow>
     contractLengthFilter f = ''all'' \<Longrightarrow> filterResults h f results = filter (resultsDateOk h f) results"
  "agentFilter g = ''all'' \<Longrightarrow> boundFilter g = ''all'' \<Longrightarrow>
     filterPathfinderData h g data = filter (overviewDateOk h g) data"
  by (simp_all add: filterResults_def matchesFilters_def filterPathfinderData_def cong: filter_cong)

text \<open>
  C7, as stated, fails twice. A record whose time stamp does not parse is admitted by
  every date range, in the results list and on the overview page. And the results list
  does not normalize the lower boundary: with a lower boundary at 09:30 it rejects a
  record of midnight of that day, which lies between the start of the lower day and the
  end of the upper day.
\<close>

theorem date_range_counterexample:
  "newDate sampleHost (timestamp sampleUndated) = None
   \<and> resultsDateOk sampleHost (sampleRange 1704412800000 1704844800000) sampleUndated
   \<and> overviewDateOk sampleHost (sampleOverviewRange 1704412800000 1704844800000)
        (sampleEntry ''not a date'' ''A'' None)
   \<and> newDate sampleHost (timestamp sampleEarly) = Some 1704412800000
   \<and> startOfDay sampleHost 1704447000000 \<le> 1704412800000
   \<and> 1704412800000 \<le> endOfDay sampleHost 1704844800000
   \<and> \<not> resultsDateOk sampleHost (sampleRange 1704447000000 1704844800000) sampleEarly"
  by (simp add: resultsDateOk_def overviewDateOk_def date_lt_def date_gt_def setHoursEnd_def
      setHoursStart_def newDate_def sampleHost_def sampleParse_def sampleUndated_def sampleEarly_def
      sampleRecord_def sampleRange_def sampleOverviewRange_def noFilters_def sampleEntry_def)

text \<open>
  C7, amended. For a record whose primary time stamp parses to the time \<open>t\<close> and a range
  whose selected boundaries are valid dates (an unselected boundary does not constrain):
  the overview filter admits the record exactly when \<open>t\<close> lies between the start of
  the lower boundary's day and the end of the upper boundary's day, inclusively; the
  results-list filter admits it exactly when \<open>t\<close> lies between the lower boundary as
  selected and the end of the upper boundary's day, inclusively. A record whose time
  stamp does not parse passes both date filters. Every record a filter returns passes
  its date filter, and with the other filters at \<open>all\<close> nothing else is asked.
\<close>

theorem date_range_filter:
  "(newDate h (timestamp r) = Some t \<longrightarrow> dateFrom f = map_option Some lo \<longrightarrow>
      dateTo f = map_option Some hi \<longrightarrow>
      (resultsDateOk h f r \<longleftrightarrow>
         (case lo of None \<Rightarrow> True | Some l \<Rightarrow> l \<le> t)
         \<and> (case hi of None \<Rightarrow> True | Some u \<Rightarrow> t \<le> endOfDay h u)))
   \<and> (newDate h (Some (timeCreated e)) = Some t' \<longrightarrow> startDate g = map_option Some lo' \<longrightarrow>
      endDate g = map_option Some hi' \<longrightarrow>
      (overviewDateOk h g e \<longleftrightarrow>
         (case lo' of None \<Rightarrow> True | Some l \<Rightarrow> startOfDay h l \<le> t')
         \<and> (case hi' of None \<Rightarrow> True | Some u \<Rightarrow> t' \<le> endOfDay h u)))
   \<and> (newDate h (timestamp r) = None \<longrightarrow> resultsDateOk h f r)
   \<and> (newDate h (Some (timeCreated e)) = None \<longrightarrow> overviewDateOk h g e)
   \<and> set (filterResults h f results) \<subseteq> {r \<in> set results. resultsDateOk h f r}
   \<and> set (filterPathfinderData h g data) \<subseteq> {e \<in> set data. overviewDateOk h g e}
   \<and> set (filterKissData h g data) \<subseteq> {e \<in> set data. overviewDateOk h g e}
   \<and> (searchQuery f = [] \<longrightarrow> productFilter f = ''all'' \<longrightarrow> salesPersonFilter f = ''all'' \<longrightarrow>
        contractLengthFilter f = ''all'' \<longrightarrow>
        filterResults h f results = filter (resultsDateOk h f) results)
   \<and> (agentFilter g = ''all'' \<longrightarrow> boundFilter g = ''all'' \<longrightarrow>
        filterPathfinderData h g data = filter (overviewDateOk h g) data)"
proof (intro conjI impI)
  show "resultsDateOk h f r \<longleftrightarrow>
         (case lo of None \<Rightarrow> True | Some l \<Rightarrow> l \<le> t)
         \<and> (case hi of None \<Rightarrow> True | Some u \<Rightarrow> t \<le> endOfDay h u)"
    if "newDate h (timestamp r) = Some t" "dateFrom f = map_option Some lo" "dateTo f = map_option Some hi"
    using that by (rule results_date_ok)
  show "overviewDateOk h g e \<longleftrightarrow>
         (case lo' of None \<Rightarrow> True | Some l \<Rightarrow> startOfDay h l \<le> t')
         \<and> (case hi' of None \<Rightarrow> True | Some u \<Rightarrow> t' \<le> endOfDay h u)"
    if "newDate h (Some (timeCreated e)) = Some t'" "startDate g = map_option Some lo'"
      "endDate g = map_option Some hi'"
    using that by (rule overview_date_ok)
  show "resultsDateOk h f r" if "newDate h (timestamp r) = None"
    using that by (rule undated_admitted)
  show "overviewDateOk h g e" if "newDate h (Some (timeCreated e)) = None"
    using that by (rule undated_admitted)
  show "set (filterResults h f results) \<subseteq> {r \<in> set results. resultsDateOk h f r}"
    using date_part_of_filters(1) [of h f results] by blast
  show "set (filterPathfinderData h g data) \<subseteq> {e \<in> set data. overviewDateOk h g e}"
    by (rule date_part_of_filters)
  show "set (filterKissData h g data) \<subseteq> {e \<in> set data. overviewDateOk h g e}"
    by (rule date_part_of_filters)
  show "filterResults h f results = filter (resultsDateOk h f) results"
    if "searchQuery f = []" "productFilter f = ''all''" "salesPersonFilter f = ''all''"
      "contractLengthFilter f = ''all''"
    using that by (rule date_only_filters)
  show "filterPathfinderData h g data = filter (overviewDateOk h g) data"
    if "agentFilter g = ''all''" "boundFilter g = ''all''"
    using that by (rule date_only_filters)
qed

theorem date_range_filter_witness:
  "resultsDateOk sampleHost (sampleRange 1704412800000 1704844800000) sampleEarly
   \<and> overviewDateOk sampleHost (sampleOverviewRange 1704447000000 1704447000000)
        (sampleEntry ''2024-01-05'' ''A'' None)
   \<and> resultsDateOk sampleHost (sampleRange 1704412800000 1704844800000) sampleUndated"
proof -
  have t: "newDate sampleHost (timestamp sampleEarly) = Some 1704412800000"
    and n: "newDate sampleHost (timestamp sampleUndated) = None"
    and t': "newDate sampleHost (Some (timeCreated (sampleEntry ''2024-01-05'' ''A'' None))) = Some 1704412800000"
    by (simp_all add: newDate_def sampleHost_def sampleParse_def sampleEarly_def sampleUndated_def
        sampleRecord_def sampleEntry_def)
  have f: "dateFrom (sampleRange 1704412800000 1704844800000) = map_option Some (Some 1704412800000)"
      "dateTo (sampleRange 1704412800000 1704844800000) = map_option Some (Some 1704844800000)"
    and g: "startDate (sampleOverviewRange 1704447000000 1704447000000) = map_option Some (Some 1704447000000)"
      "endDate (sampleOverviewRange 1704447000000 1704447000000) = map_option Some (Some 1704447000000)"
    by (simp_all add: sampleRange_def sampleOverviewRange_def noFilters_def)
  have ends: "(1704412800000::int) \<le> endOfDay sampleHost 1704844800000"
      "startOfDay sampleHost 1704447000000 \<le> 1704412800000"
      "(1704412800000::int) \<le> endOfDay sampleHost 1704447000000"
    by (simp_all add: sampleHost_def)
  from date_range_filter
    [where h = sampleHost and r = sampleEarly and t = 1704412800000
      and f = "sampleRange 1704412800000 1704844800000"
      and lo = "Some 1704412800000" and hi = "Some 1704844800000"
      and e = "sampleEntry ''2024-01-05'' ''A'' None" and t' = 1704412800000
      and g = "sampleOverviewRange 1704447000000 1704447000000"
      and lo' = "Some 1704447000000" and hi' = "Some 1704447000000"]
    t t' f g ends
  have "resultsDateOk sampleHost (sampleRange 1704412800000 1704844800000) sampleEarly"
    and "overviewDateOk sampleHost (sampleOverviewRange 1704447000000 1704447000000)
        (sampleEntry ''2024-01-05'' ''A'' None)"
    by simp_all
  moreover from date_range_filter
    [where h = sampleHost and r = sampleUndated and f = "sampleRange 1704412800000 1704844800000"] n
  have "resultsDateOk sampleHost (sampleRange 1704412800000 1704844800000) sampleUndated"
    by blast
  ultimately show ?thesis by blast
qed

lemma page_eq:
  assumes "1 \<le> p"
  shows "paginatedResults xs p = take 50 (drop (50 * nat (p - 1)) xs)"
proof -
  have "nat ((p - 1) * 50 + 50) = nat ((p - 1) * 50) + 50" "nat ((p - 1) * 50) = 50 * nat (p - 1)"
    using assms by (simp_all add: nat_add_distrib nat_mult_distrib)
  then show ?thesis
    using assms
    by (auto simp add: paginatedResults_def ITEMS_PER_PAGE_def slice_def sliceIndex_def Let_def min_def)
qed

lemma ceil_div_bounds:
  fixes n :: nat
  shows "n \<le> 50 * ((n + 49) div 50) \<and> 50 * ((n + 49) div 50) < n + 50"
proof -
  have "n + 49 = 50 * ((n + 49) div 50) + (n + 49) mod 50"
    by simp
  moreover have "(n + 49) mod 50 < 50"
    by simp
  ultimately show ?thesis
    by linarith
qed

lemma totalPages_eq: "totalPages xs = max 1 (int ((length xs + 49) div 50))"
proof -
  define n where "n = length xs"
  have le: "n \<le> 50 * ((n + 49) div 50)" and less: "50 * ((n + 49) div 50) < n + 50"
    using ceil_div_bounds [of n] by simp_all
  have "\<lceil>real n / 50\<rceil> = int ((n + 49) div 50)"
  proof (rule ceiling_unique)
    have "real (50 * ((n + 49) div 50)) < real (n + 50)"
      using less by (simp only: of_nat_less_iff)
    then show "real_of_int (int ((n + 49) div 50)) - 1 < real n / 50"
      by simp
    have "real n \<le> real (50 * ((n + 49) div 50))"
      using le by (simp only: of_nat_le_iff)
    then show "real n / 50 \<le> real_of_int (int ((n + 49) div 50))"
      by simp
  qed
  then show ?thesis by (simp add: totalPages_def ITEMS_PER_PAGE_def n_def)
qed

lemma upto_as_nat: "map f [1 .. int k] = map (\<lambda>i. f (int (Suc i))) [0 ..< k]"
proof (induction k)
  case 0 show ?case by simp
next
  case (Suc k)
  have "[1 .. int (Suc k)] = [1 .. int k] @ [int (Suc k)]"
    by (simp add: upto_rec2 add.commute)
  with Suc show ?case by simp
qed

lemma concat_chunks:
  "concat (map (\<lambda>i. take m (drop (m * i) xs)) [0 ..< k]) = take (m * k) xs"
proof (induction k)
  case 0 show ?case by simp
next
  case (Suc k)
  have "take (m * k + m) xs = take (m * k) xs @ take m (drop (m * k) xs)"
    by (simp only: take_add)
  with Suc show ?case by (simp add: add.commute)
qed

lemma pages_eq:
  "pages xs = map (\<lambda>i. take 50 (drop (50 * i) xs)) [0 ..< max 1 ((length xs + 49) div 50)]"
proof -
  have tp: "totalPages xs = int (max 1 ((length xs + 49) div 50))"
    by (simp add: totalPages_eq)
  show ?thesis
    unfolding pages_def tp upto_as_nat by (simp add: page_eq)
qed

lemma pages_concat: "concat (pages xs) = xs"
proof -
  have "length xs \<le> 50 * max 1 ((length xs + 49) div 50)"
    using ceil_div_bounds [of "length xs"] by (simp add: max_def)
  then show ?thesis
    unfolding pages_eq concat_chunks by simp
qed

lemma pages_last:
  "last (pages xs) = take 50 (drop (50 * (max 1 ((length xs + 49) div 50) - 1)) xs)"
proof -
  have "[0 ..< max 1 ((length xs + 49) div 50)] \<noteq> []" by simp
  then show ?thesis
    unfolding pages_eq by (simp add: last_map del: upt_eq_Nil_conv)
qed

lemma pages_last_size:
  assumes "xs \<noteq> []"
  shows "1 \<le> length (last (pages xs)) \<and> length (last (pages xs)) \<le> 50"
proof -
  define n where "n = length xs"
  define q where "q = (n + 49) div 50"
  define k where "k = max 1 q"
  have "0 < n" using assms by (simp add: n_def)
  moreover have "n \<le> 50 * q" "50 * q < n + 50"
    using ceil_div_bounds [of n] by (simp_all add: q_def)
  ultimately have "50 * (k - 1) < n" "n \<le> 50 * (k - 1) + 50"
    unfolding k_def by (simp_all add: max_def)
  moreover have "length (last (pages xs)) = min 50 (n - 50 * (k - 1))"
    unfolding pages_last by (simp add: n_def k_def q_def min.commute)
  ultimately show ?thesis by linarith
qed

lemma pages_empty: "pages ([] :: 'a list) = [[]]"
  by (simp add: pages_eq)

text \<open>
  C4. With the page size 50, the number of pages is the ceiling of the filtered count
  over 50, and at least 1. Page \<open>p\<close> holds the items at positions \<open>50 (p - 1)\<close> up to
  \<open>50 p\<close>, so the pages are disjoint ranges of the list; put end to end they are the
  filtered list, and their sizes sum to its length. The last page of a non-empty list
  has between 1 and 50 items; an empty list has exactly one page, which is empty.
\<close>

theorem pagination_partition:
  "totalPages filtered = max 1 \<lceil>real (length filtered) / 50\<rceil>
   \<and> length (pages filtered) = nat (totalPages filtered)
   \<and> (\<forall>p \<in> {1 .. totalPages filtered}.
         paginatedResults filtered p = take 50 (drop (50 * nat (p - 1)) filtered))
   \<and> concat (pages filtered) = filtered
   \<and> sum_list (map length (pages filtered)) = length filtered
   \<and> (filtered \<noteq> [] \<longrightarrow> 1 \<le> length (last (pages filtered)) \<and> length (last (pages filtered)) \<le> 50)
   \<and> (filtered = [] \<longrightarrow> pages filtered = [[]])"
proof (intro conjI ballI impI)
  show "totalPages filtered = max 1 \<lceil>real (length filtered) / 50\<rceil>"
    by (simp add: totalPages_def ITEMS_PER_PAGE_def)
  show "length (pages filtered) = nat (totalPages filtered)"
    by (simp add: pages_def)
  show "paginatedResults filtered p = take 50 (drop (50 * nat (p - 1)) filtered)"
    if "p \<in> {1 .. totalPages filtered}" for p
    using that by (simp add: page_eq)
  show "concat (pages filtered) = filtered"
    by (rule pages_concat)
  have "sum_list (map length (pages filtered)) = length (concat (pages filtered))"
    by (simp add: length_concat)
  then show "sum_list (map length (pages filtered)) = length filtered"
    by (simp add: pages_concat)
  show "1 \<le> length (last (pages filtered))" "length (last (pages filtered)) \<le> 50"
    if "filtered \<noteq> []"
    using pages_last_size [OF that] by simp_all
  show "pages filtered = [[]]" if "filtered = []"
    using that by (simp add: pages_empty)
qed

theorem pagination_partition_witness:
  "concat (pages (replicate 120 (0::nat))) = replicate 120 0
   \<and> sum_list (map length (pages (replicate 120 (0::nat)))) = 120
   \<and> 1 \<le> length (last (pages (replicate 120 (0::nat))))
   \<and> length (last (pages (replicate 120 (0::nat)))) \<le> 50"
proof -
  have "replicate 120 (0::nat) \<noteq> []" by simp
  then show ?thesis
    using pagination_partition [of "replicate 120 (0::nat)"] by simp
qed

section \<open>Properties of the eligibility rule\<close>

lemma map_of_updateKey:
  "map_of (updateKey m k f) k' = (if k' = k then map_option f (map_of m k) else map_of m k')"
  by (induction m) (auto simp: updateKey_def)

lemma fst_updateKey: "map fst (updateKey m k f) = map fst m"
  by (induction m) (auto simp: updateKey_def)

lemma updateKey_absent: "k \<notin> fst ` set m \<Longrightarrow> updateKey m k f = m"
  by (induction m) (auto simp: updateKey_def)

lemma countSession_eq:
  "countSession c k t =
     updateKey (ensureKey c k) k
       (\<lambda>c. if t = Kiss then c\<lparr>kiss := kiss c + 1\<rparr> else c\<lparr>pathfinder := pathfinder c + 1\<rparr>)"
  by (simp add: countSession_def Let_def updateKey_absent)

lemma map_of_ensureKey:
  "map_of (ensureKey c k) k' =
     (if k' = k \<and> map_of c k = None \<and> k \<notin> set objectPrototypeKeys
      then Some \<lparr>pathfinder = 0, kiss = 0\<rparr> else map_of c k')"
proof (cases "k \<in> fst ` set c")
  case True
  then have "map_of c k \<noteq> None" by (simp add: map_of_eq_None_iff)
  with True show ?thesis by (simp add: ensureKey_def lookupTruthy_def)
next
  case False
  then have "map_of c k = None" by (simp add: map_of_eq_None_iff)
  with False show ?thesis
    by (simp add: ensureKey_def lookupTruthy_def map_add_def split: option.splits)
qed

lemma distinct_ensureKey: "distinct (map fst c) \<Longrightarrow> distinct (map fst (ensureKey c k))"
  by (auto simp: ensureKey_def lookupTruthy_def)

lemma distinct_countSession: "distinct (map fst c) \<Longrightarrow> distinct (map fst (countSession c k t))"
  by (simp add: countSession_eq fst_updateKey distinct_ensureKey)

lemma distinct_counts:
  "distinct (map fst (foldl (\<lambda>c (k, t). countSession c k t) [] kts))"
  by (induction kts rule: rev_induct) (auto simp: distinct_countSession split: prod.splits)

lemma tallyOf_absent: "k \<notin> fst ` set kts \<Longrightarrow> tallyOf k kts = \<lparr>pathfinder = 0, kiss = 0\<rparr>"
  by (auto simp: tallyOf_def filter_empty_conv image_iff)

lemma tallyOf_snoc:
  "tallyOf k (kts @ [(k0, t0)]) =
     (if k = k0 then (if t0 = Kiss then (tallyOf k kts)\<lparr>kiss := kiss (tallyOf k kts) + 1\<rparr>
                      else (tallyOf k kts)\<lparr>pathfinder := pathfinder (tallyOf k kts) + 1\<rparr>)
      else tallyOf k kts)"
  by (cases t0) (simp_all add: tallyOf_def)

lemma map_of_countSession:
  assumes "map_of c k0 =
      (if k0 \<in> fst ` set kts \<and> k0 \<notin> set objectPrototypeKeys then Some (tallyOf k0 kts) else None)"
    and "map_of c k =
      (if k \<in> fst ` set kts \<and> k \<notin> set objectPrototypeKeys then Some (tallyOf k kts) else None)"
  shows "map_of (countSession c k0 t0) k =
     (if k \<in> fst ` set (kts @ [(k0, t0)]) \<and> k \<notin> set objectPrototypeKeys
      then Some (tallyOf k (kts @ [(k0, t0)])) else None)"
proof (cases "k = k0")
  case same: True
  show ?thesis
  proof (cases "k0 \<in> set objectPrototypeKeys")
    case True
    then have "map_of (ensureKey c k0) k0 = None"
      using assms(1) by (simp add: map_of_ensureKey)
    then show ?thesis
      using same True by (simp add: countSession_eq map_of_updateKey)
  next
    case False
    then have "map_of (ensureKey c k0) k0 = Some (tallyOf k0 kts)"
      using assms(1) by (simp add: map_of_ensureKey tallyOf_absent)
    then show ?thesis
      using same False by (simp add: countSession_eq map_of_updateKey tallyOf_snoc)
  qed
next
  case False
  then show ?thesis
    using assms(2) by (simp add: countSession_eq map_of_updateKey map_of_ensureKey tallyOf_snoc)
qed

lemma map_of_counts:
  "map_of (foldl (\<lambda>c (k, t). countSession c k t) [] kts) k =
     (if k \<in> fst ` set kts \<and> k \<notin> set objectPrototypeKeys then Some (tallyOf k kts) else None)"
proof (induction kts arbitrary: k rule: rev_induct)
  case Nil
  show ?case by simp
next
  case (snoc p kts)
  obtain k0 t0 where p: "p = (k0, t0)" by (cases p)
  define c where "c = foldl (\<lambda>c (k, t). countSession c k t) [] kts"
  have step: "foldl (\<lambda>c (k, t). countSession c k t) [] (kts @ [p]) = countSession c k0 t0"
    by (simp add: p c_def)
  have "map_of (countSession c k0 t0) k =
     (if k \<in> fst ` set (kts @ [(k0, t0)]) \<and> k \<notin> set objectPrototypeKeys
      then Some (tallyOf k (kts @ [(k0, t0)])) else None)"
    by (rule map_of_countSession) (simp_all only: c_def snoc)
  then show ?case
    unfolding step unfolding p .
qed

lemma set_eligibleNames:
  assumes "distinct (map fst c)"
  shows "n \<in> set (eligibleNames c) \<longleftrightarrow>
     (\<exists>v. map_of c n = Some v \<and> (0 < pathfinder v \<or> 5 < kiss v))"
  using assms by (force simp: eligibleNames_def)

lemma eligible_counts:
  "n \<in> set (eligibleNames (foldl (\<lambda>c (k, t). countSession c k t) [] kts)) \<longleftrightarrow>
     n \<notin> set objectPrototypeKeys
     \<and> (0 < length (filter (\<lambda>p. p = (n, Pathfinder)) kts) \<or> 5 < length (filter (\<lambda>p. p = (n, Kiss)) kts))"
proof -
  have "filter (\<lambda>p. p = (n, t)) kts = []" if "n \<notin> fst ` set kts" for t
    using that by (force simp: filter_empty_conv)
  then show ?thesis
    unfolding set_eligibleNames [OF distinct_counts] map_of_counts
    by (auto simp: tallyOf_def)
qed

lemma options_fold:
  "foldl optionsStep (ps, cls, c) rs =
     (foldl addIfTruthy ps (map product rs),
      foldl addIfTruthy cls (map contract_length rs),
      foldl (\<lambda>c (k, t). countSession c k t) c
        (map (\<lambda>r. (google_full_name r, sessionType r)) (filter (\<lambda>r. google_full_name r \<noteq> []) rs)))"
  by (induction rs arbitrary: ps cls c) (simp_all add: optionsStep_def)

lemma count_named:
  "length (filter (\<lambda>p. p = (n, t))
      (map (\<lambda>r. (google_full_name r, sessionType r)) (filter (\<lambda>r. google_full_name r \<noteq> []) rs))) =
     (if n = [] then 0 else length (recordsOf t n rs))"
proof -
  have "filter (\<lambda>r. google_full_name r \<noteq> [] \<and> google_full_name r = n \<and> sessionType r = t) rs =
      (if n = [] then [] else recordsOf t n rs)"
    by (auto simp: recordsOf_def filter_empty_conv intro: filter_cong)
  then show ?thesis
    by (simp add: filter_map o_def) 
qed

lemma salesPersons_iff:
  "n \<in> set (salesPersons (filterOptions results)) \<longleftrightarrow>
     n \<noteq> [] \<and> n \<notin> set objectPrototypeKeys
     \<and> (0 < length (recordsOf Pathfinder n results) \<or> 5 < length (recordsOf Kiss n results))"
proof -
  have "salesPersons (filterOptions results) =
      eligibleNames (foldl (\<lambda>c (k, t). countSession c k t) []
        (map (\<lambda>r. (google_full_name r, sessionType r)) (filter (\<lambda>r. google_full_name r \<noteq> []) results)))"
    by (simp add: filterOptions_def options_fold)
  then show ?thesis
    by (simp only: eligible_counts count_named) auto
qed

lemma agents_fold:
  "foldl (countAgent t) c es =
     foldl (\<lambda>c (k, t). countSession c k t) c (map (\<lambda>e. (salesPerson e, t)) es)"
  by (induction es arbitrary: c) (simp_all add: countAgent_def)

lemma allAgents_iff:
  "n \<in> set (allAgents pathfinderData kissData) \<longleftrightarrow>
     n \<notin> set objectPrototypeKeys
     \<and> (0 < length (entriesOf n pathfinderData) \<or> 5 < length (entriesOf n kissData))"
proof -
  let ?kts = "map (\<lambda>e. (salesPerson e, Pathfinder)) pathfinderData @ map (\<lambda>e. (salesPerson e, Kiss)) kissData"
  have a: "allAgents pathfinderData kissData =
      eligibleNames (foldl (\<lambda>c (k, t). countSession c k t) [] ?kts)"
    by (simp add: allAgents_def agents_fold)
  have p: "length (filter (\<lambda>p. p = (n, Pathfinder)) ?kts) = length (entriesOf n pathfinderData)"
    and k: "length (filter (\<lambda>p. p = (n, Kiss)) ?kts) = length (entriesOf n kissData)"
    by (simp_all add: filter_map o_def entriesOf_def)
  show ?thesis
    unfolding a eligible_counts p k ..
qed

section \<open>Properties of the leaderboard\<close>

lemma map_of_ensureStats:
  "map_of (ensureStats m n) k = (if k = n \<and> map_of m n = None then Some (newStats n) else map_of m k)"
proof (cases "n \<in> fst ` set m")
  case True
  then have "map_of m n \<noteq> None" by (simp add: map_of_eq_None_iff)
  with True show ?thesis by (simp add: ensureStats_def)
next
  case False
  then have "map_of m n = None" by (simp add: map_of_eq_None_iff)
  with False show ?thesis by (simp add: ensureStats_def map_add_def split: option.splits)
qed

lemma distinct_addSession: "distinct (map fst m) \<Longrightarrow> distinct (map fst (addSession m r))"
  by (auto simp: addSession_def Let_def fst_updateKey ensureStats_def)

lemma distinct_stats: "distinct (map fst (foldl addSession [] rs))"
  by (induction rs rule: rev_induct) (simp_all add: distinct_addSession)

lemma groupOf_absent: "n \<notin> google_full_name ` set rs \<Longrightarrow> groupOf n rs = newStats n"
  by (auto simp: groupOf_def newStats_def recordsOf_def filter_empty_conv)

lemma groupOf_snoc:
  "groupOf n (rs @ [r]) = (if google_full_name r = n then recordSession r (groupOf n rs) else groupOf n rs)"
  by (cases "sessionType r") (simp_all add: groupOf_def recordSession_def recordsOf_def Let_def)

lemma map_of_addSession:
  assumes "map_of m (google_full_name r) =
      (if google_full_name r \<noteq> [] \<and> google_full_name r \<in> google_full_name ` set rs
       then Some (groupOf (google_full_name r) rs) else None)"
    and "map_of m n = (if n \<noteq> [] \<and> n \<in> google_full_name ` set rs then Some (groupOf n rs) else None)"
  shows "map_of (addSession m r) n =
     (if n \<noteq> [] \<and> n \<in> google_full_name ` set (rs @ [r]) then Some (groupOf n (rs @ [r])) else None)"
proof (cases "google_full_name r = []")
  case True
  then show ?thesis
    using assms(2) by (auto simp add: addSession_def groupOf_snoc)
next
  case named: False
  show ?thesis
  proof (cases "n = google_full_name r")
    case True
    have "map_of (ensureStats m n) n = Some (groupOf n rs)"
      using assms(1) True named by (simp add: map_of_ensureStats groupOf_absent)
    then show ?thesis
      using True named by (simp add: addSession_def Let_def map_of_updateKey groupOf_snoc)
  next
    case False
    then show ?thesis
      using assms(2) named
      by (auto simp add: addSession_def Let_def map_of_updateKey map_of_ensureStats groupOf_snoc)
  qed
qed

lemma map_of_stats:
  "map_of (foldl addSession [] rs) n =
     (if n \<noteq> [] \<and> n \<in> google_full_name ` set rs then Some (groupOf n rs) else None)"
proof (induction rs arbitrary: n rule: rev_induct)
  case Nil
  show ?case by simp
next
  case (snoc r rs)
  define m where "m = foldl addSession [] rs"
  have "map_of (addSession m r) n =
     (if n \<noteq> [] \<and> n \<in> google_full_name ` set (rs @ [r]) then Some (groupOf n (rs @ [r])) else None)"
    by (rule map_of_addSession) (simp_all only: m_def snoc)
  then show ?case by (simp add: m_def)
qed

lemma set_groupNames: "set (groupNames rs) = {n \<in> google_full_name ` set rs. n \<noteq> []}"
proof -
  have "n \<in> set (groupNames rs) \<longleftrightarrow> map_of (foldl addSession [] rs) n \<noteq> None" for n
    by (simp add: groupNames_def map_of_eq_None_iff)
  then have "n \<in> set (groupNames rs) \<longleftrightarrow> n \<noteq> [] \<and> n \<in> google_full_name ` set rs" for n
    by (simp add: map_of_stats)
  then show ?thesis
    by blast
qed

lemma distinct_groupNames: "distinct (groupNames rs)"
  by (simp add: groupNames_def distinct_stats)

lemma stats_closed: "foldl addSession [] rs = map (\<lambda>n. (n, groupOf n rs)) (groupNames rs)"
proof -
  have "snd p = groupOf (fst p) rs" if "p \<in> set (foldl addSession [] rs)" for p
  proof -
    have "map_of (foldl addSession [] rs) (fst p) = Some (snd p)"
      using that distinct_stats [of rs] by simp
    then show ?thesis
      by (simp add: map_of_stats split: if_splits)
  qed
  then have "map (\<lambda>p. (fst p, groupOf (fst p) rs)) (foldl addSession [] rs) = foldl addSession [] rs"
    by (intro map_idI) (simp add: prod_eq_iff)
  then show ?thesis
    by (simp add: groupNames_def o_def)
qed

lemma set_insertBy: "set (insertBy cmp x ys) = insert x (set ys)"
  by (induction ys) auto

lemma set_sortBy: "set (sortBy cmp xs) = set xs"
  by (induction xs) (simp_all add: sortBy_def set_insertBy)

lemma sum_insertBy: "sum_list (map f (insertBy cmp x ys)) = f x + sum_list (map f ys)"
  for f :: "'a \<Rightarrow> nat"
  by (induction ys) auto

lemma sum_sortBy: "sum_list (map f (sortBy cmp xs)) = sum_list (map f xs)"
  for f :: "'a \<Rightarrow> nat"
  by (induction xs) (simp_all add: sortBy_def sum_insertBy)

lemma distinct_insertBy:
  "distinct (map f (insertBy cmp x ys)) \<longleftrightarrow> f x \<notin> f ` set ys \<and> distinct (map f ys)"
  by (induction ys) (auto simp: set_insertBy)

lemma distinct_sortBy: "distinct (map f (sortBy cmp xs)) \<longleftrightarrow> distinct (map f xs)"
proof (induction xs)
  case Nil
  show ?case by (simp add: sortBy_def)
next
  case (Cons x xs)
  have "sortBy cmp (x # xs) = insertBy cmp x (sortBy cmp xs)"
    by (simp add: sortBy_def)
  with Cons show ?case
    by (simp add: distinct_insertBy set_sortBy)
qed

lemma keepGroup_groupOf: "keepGroup tf (withAverages (groupOf n rs)) \<longleftrightarrow> keptName tf n rs"
  by (simp add: keepGroup_def withAverages_def groupOf_def keptName_def Let_def)

lemma leaderboard_closed:
  "leaderboardStats rs tf =
     sortBy (\<lambda>a b. Some (averagePercentComplete b - averagePercentComplete a))
       (map (\<lambda>n. withAverages (groupOf n rs)) (filter (\<lambda>n. keptName tf n rs) (groupNames rs)))"
  by (simp add: leaderboardStats_def statsMapOf_def stats_closed filter_map o_def keepGroup_groupOf)

lemma count_by_keys:
  assumes "distinct ks"
  shows "sum_list (map (\<lambda>n. length (filter (\<lambda>r. key r = n) rs)) ks) =
         length (filter (\<lambda>r. key r \<in> set ks) rs)"
  using assms
proof (induction ks)
  case Nil
  show ?case by simp
next
  case (Cons k ks)
  have "length (filter (\<lambda>r. key r = k \<or> key r \<in> set ks) rs) =
      length (filter (\<lambda>r. key r = k) rs) + length (filter (\<lambda>r. key r \<in> set ks) rs)"
    using Cons.prems by (induction rs) auto
  with Cons show ?case by simp
qed

lemma leaderboard_sum:
  "sum_list (map totalSessions (leaderboardStats rs tf)) =
     length (filter (\<lambda>r. google_full_name r \<noteq> [] \<and> keptName tf (google_full_name r) rs) rs)"
proof -
  let ?ks = "filter (\<lambda>n. keptName tf n rs) (groupNames rs)"
  have d: "distinct ?ks"
    by (simp add: distinct_groupNames)
  have "sum_list (map totalSessions (leaderboardStats rs tf)) =
      sum_list (map (\<lambda>n. length (filter (\<lambda>r. google_full_name r = n) rs)) ?ks)"
    by (simp add: leaderboard_closed sum_sortBy o_def withAverages_def groupOf_def Let_def)
  also have "\<dots> = length (filter (\<lambda>r. google_full_name r \<in> set ?ks) rs)"
    using d by (rule count_by_keys)
  also have "\<dots> = length (filter (\<lambda>r. google_full_name r \<noteq> [] \<and> keptName tf (google_full_name r) rs) rs)"
    by (intro arg_cong [where f = length] filter_cong) (auto simp: set_groupNames)
  finally show ?thesis .
qed

lemma unfiltered_sum:
  "sum_list (map (totalSessions \<circ> snd) (statsMapOf rs)) = length (filter (\<lambda>r. google_full_name r \<noteq> []) rs)"
proof -
  have "sum_list (map (totalSessions \<circ> snd) (statsMapOf rs)) =
      sum_list (map (\<lambda>n. length (filter (\<lambda>r. google_full_name r = n) rs)) (groupNames rs))"
    by (simp add: statsMapOf_def stats_closed o_def withAverages_def groupOf_def Let_def)
  also have "\<dots> = length (filter (\<lambda>r. google_full_name r \<in> set (groupNames rs)) rs)"
    using distinct_groupNames by (rule count_by_keys)
  also have "\<dots> = length (filter (\<lambda>r. google_full_name r \<noteq> []) rs)"
    by (intro arg_cong [where f = length] filter_cong) (auto simp: set_groupNames)
  finally show ?thesis .
qed

lemma leaderboard_groups:
  assumes "g \<in> set (leaderboardStats rs tf)"
  shows "\<exists>n. n \<noteq> [] \<and> keptName tf n rs \<and> g = withAverages (groupOf n rs)"
  using assms by (auto simp: leaderboard_closed set_sortBy set_groupNames)

lemma leaderboard_names:
  "name ` set (leaderboardStats rs tf) = {n \<in> google_full_name ` set rs. n \<noteq> [] \<and> keptName tf n rs}"
proof -
  have "name (withAverages (groupOf n rs)) = n" for n
    by (simp add: withAverages_def groupOf_def Let_def)
  then show ?thesis
    by (auto simp: leaderboard_closed set_sortBy set_groupNames image_iff)
qed

lemma leaderboard_distinct: "distinct (map name (leaderboardStats rs tf))"
proof -
  have "map name (map (\<lambda>n. withAverages (groupOf n rs)) ks) = ks" for ks
    by (induction ks) (simp_all add: withAverages_def groupOf_def Let_def)
  then show ?thesis
    by (simp add: leaderboard_closed distinct_sortBy distinct_groupNames del: map_map)
qed

lemma split_by_type:
  "length (filter P rs) =
     length (filter (\<lambda>r. P r \<and> sessionType r = Pathfinder) rs)
     + length (filter (\<lambda>r. P r \<and> sessionType r = Kiss) rs)"
proof (induction rs)
  case Nil
  show ?case by simp
next
  case (Cons r rs)
  then show ?case by (cases "sessionType r") simp_all
qed

lemma group_completed:
  "completedSessions (withAverages (groupOf n rs)) =
     length (filter (\<lambda>r. total_steps r \<le> step r)
       (pathfinderSessions (withAverages (groupOf n rs)) @ kissSessions (withAverages (groupOf n rs))))"
  using split_by_type [of "\<lambda>r. google_full_name r = n \<and> total_steps r \<le> step r" rs]
  by (simp add: withAverages_def groupOf_def Let_def recordsOf_def conj_ac)

lemma group_total:
  "totalSessions (withAverages (groupOf n rs)) = length (filter (\<lambda>r. google_full_name r = n) rs)"
  "totalSessions (withAverages (groupOf n rs)) =
     length (pathfinderSessions (withAverages (groupOf n rs))) + length (kissSessions (withAverages (groupOf n rs)))"
  "name (withAverages (groupOf n rs)) = n"
  using split_by_type [of "\<lambda>r. google_full_name r = n" rs]
  by (simp_all add: withAverages_def groupOf_def Let_def recordsOf_def)

lemma filtered_types:
  assumes "r \<in> set (filteredSessions h tf dr sessions)"
  shows "tf = FilterAll \<or> tf = FilterType (sessionType r)"
  using assms by (auto simp: filteredSessions_def split: if_splits)

lemma keptName_filtered:
  "keptName tf n (filteredSessions h tf dr sessions) \<longleftrightarrow>
     0 < length (recordsOf Pathfinder n (filteredSessions h tf dr sessions))
     \<or> 5 < length (recordsOf Kiss n (filteredSessions h tf dr sessions))"
proof -
  let ?fs = "filteredSessions h tf dr sessions"
  have "recordsOf Pathfinder n ?fs = []" if "tf = FilterType Kiss"
    using that filtered_types [of _ h tf dr sessions]
    by (auto simp: recordsOf_def filter_empty_conv)
  moreover have "recordsOf Kiss n ?fs = []" if "tf = FilterType Pathfinder"
    using that filtered_types [of _ h tf dr sessions]
    by (auto simp: recordsOf_def filter_empty_conv)
  ultimately show ?thesis
    by (auto simp: keptName_def)
qed

lemma or_default_nonempty: "d \<noteq> [] \<Longrightarrow> or_default a d \<noteq> []"
  by (simp add: or_default_def split: option.splits)

lemma normalize_named: "normalizeKissRecord k = Inr r \<Longrightarrow> google_full_name r \<noteq> []"
  by (auto simp: normalizeKissRecord_def or_default_nonempty split: option.splits)

lemma normalizeAll_named: "normalizeAll ks = Inr rs \<Longrightarrow> r \<in> set rs \<Longrightarrow> google_full_name r \<noteq> []"
proof (induction ks arbitrary: rs)
  case Nil
  then show ?case by simp
next
  case (Cons k ks)
  then show ?case
    by (auto split: sum.splits dest: normalize_named)
qed

lemma normalizeAll_kiss: "normalizeAll ks = Inr rs \<Longrightarrow> r \<in> set rs \<Longrightarrow> sessionType r = Kiss"
proof (induction ks arbitrary: rs)
  case Nil
  then show ?case by simp
next
  case (Cons k ks)
  then show ?case
    by (auto simp: normalizeKissRecord_def split: sum.splits option.splits)
qed

lemma fetched_kiss_named:
  assumes "fetchedSessions pathfinderRaw kissRaw = Inr sessions" "r \<in> set sessions" "sessionType r = Kiss"
  shows "google_full_name r \<noteq> []"
  using assms by (auto simp: fetchedSessions_def Let_def split: sum.splits dest: normalizeAll_named)

lemma recordsOf_named:
  assumes "k < length (recordsOf t n rs)"
  shows "n \<in> google_full_name ` set rs"
proof -
  from assms have "recordsOf t n rs \<noteq> []" by auto
  then obtain r where "r \<in> set (recordsOf t n rs)"
    by (cases "recordsOf t n rs") auto
  then show ?thesis
    by (force simp: recordsOf_def)
qed

lemma leaderboard_names_filtered:
  "n \<in> name ` set (leaderboardStats (filteredSessions h tf dr sessions) tf) \<longleftrightarrow>
     n \<noteq> [] \<and> (0 < length (recordsOf Pathfinder n (filteredSessions h tf dr sessions))
                \<or> 5 < length (recordsOf Kiss n (filteredSessions h tf dr sessions)))"
  unfolding leaderboard_names keptName_filtered
  using recordsOf_named [of 0 Pathfinder n "filteredSessions h tf dr sessions"]
    recordsOf_named [of 5 Kiss n "filteredSessions h tf dr sessions"]
  by auto

lemma scenario_completed:
  "map (\<lambda>g. length (filter (\<lambda>s. total_steps s \<le> step s) (pathfinderSessions g @ kissSessions g)))
     (leaderboardStats sampleScenario FilterAll) = [1]"
  by (simp add: leaderboardStats_def statsMapOf_def addSession_def ensureStats_def updateKey_def
      recordSession_def newStats_def withAverages_def keepGroup_def sortBy_def Let_def
      sampleScenario_def sampleRecord_def)

lemma scenario_eval:
  "map (\<lambda>g. (name g, totalSessions g, completedSessions g, averagePercentComplete g))
     (leaderboardStats sampleScenario FilterAll) = [(''A'', 2, 1, 125 / 2)]"
  by (simp add: leaderboardStats_def statsMapOf_def addSession_def ensureStats_def updateKey_def
      recordSession_def newStats_def withAverages_def keepGroup_def sortBy_def Let_def
      sampleScenario_def sampleRecord_def)

text \<open>
  C9, as stated, fails. In the results list a record without a salesperson name is
  skipped, so the empty name is not offered although it has a Pathfinder record, while
  the overview page, which has no such guard, lists the empty name of a Pathfinder
  entry. And the two lists that count in a plain object never list a name that
  \<open>Object.prototype\<close> also has, such as \<open>constructor\<close>, whatever its records.
\<close>

theorem eligibility_counterexample:
  "0 < length (recordsOf Pathfinder [] [sampleNameless])
   \<and> [] \<notin> set (salesPersons (filterOptions [sampleNameless]))
   \<and> [] \<in> set (allAgents [sampleEntry ''2024-01-05'' [] (Some ''Lead Gen'')] [])
   \<and> 0 < length (recordsOf Pathfinder ''constructor'' [sampleInherited])
   \<and> ''constructor'' \<notin> set (salesPersons (filterOptions [sampleInherited]))"
proof -
  have "0 < length (recordsOf Pathfinder [] [sampleNameless])"
    and "0 < length (recordsOf Pathfinder ''constructor'' [sampleInherited])"
    and "0 < length (entriesOf [] [sampleEntry ''2024-01-05'' [] (Some ''Lead Gen'')])"
    by (simp_all add: recordsOf_def entriesOf_def sampleNameless_def sampleInherited_def
        sampleRecord_def sampleEntry_def)
  moreover have "''constructor'' \<in> set objectPrototypeKeys" "[] \<notin> set objectPrototypeKeys"
    by (simp_all add: objectPrototypeKeys_def)
  ultimately show ?thesis
    by (simp add: salesPersons_iff allAgents_iff)
qed

text \<open>
  C9, amended. For a name that is not the name of a member of \<open>Object.prototype\<close>: it is
  offered in the salesperson filter of the results list exactly when it is not empty
  and, in the unfiltered records, has at least one Pathfinder record or more than 5
  KISS records (a record without a name is skipped); it is in the agent list of the
  overview page exactly when it has at least one Pathfinder entry or more than 5 KISS
  entries, the empty name included. For every name: it has a group on the leaderboard
  exactly when it is not empty and passes the same rule on the sessions left by the
  leaderboard's type and date filters.
\<close>

theorem eligibility_rule:
  "(n \<notin> set objectPrototypeKeys \<longrightarrow>
      (n \<in> set (salesPersons (filterOptions results)) \<longleftrightarrow>
         n \<noteq> [] \<and> (0 < length (recordsOf Pathfinder n results) \<or> 5 < length (recordsOf Kiss n results))))
   \<and> (n \<notin> set objectPrototypeKeys \<longrightarrow>
      (n \<in> set (allAgents pathfinderData kissData) \<longleftrightarrow>
         0 < length (entriesOf n pathfinderData) \<or> 5 < length (entriesOf n kissData)))
   \<and> (n \<in> name ` set (leaderboardStats (filteredSessions h tf dr sessions) tf) \<longleftrightarrow>
      n \<noteq> [] \<and> (0 < length (recordsOf Pathfinder n (filteredSessions h tf dr sessions))
                 \<or> 5 < length (recordsOf Kiss n (filteredSessions h tf dr sessions))))"
  using salesPersons_iff [of n results] allAgents_iff [of n pathfinderData kissData]
    leaderboard_names_filtered [of n h tf dr sessions]
  by blast

theorem eligibility_rule_witness:
  "''B'' \<in> set (salesPersons (filterOptions [sampleUndated, sampleEarly, sampleLate]))
   \<and> ''C'' \<notin> set (salesPersons (filterOptions [sampleUndated, sampleEarly, sampleLate]))
   \<and> ''A'' \<in> set (allAgents sampleEntries [])"
proof -
  have "''A'' \<notin> set objectPrototypeKeys" "''B'' \<notin> set objectPrototypeKeys"
    "''C'' \<notin> set objectPrototypeKeys"
    by (simp_all add: objectPrototypeKeys_def)
  moreover have "0 < length (recordsOf Pathfinder ''B'' [sampleUndated, sampleEarly, sampleLate])"
    and "\<not> (0 < length (recordsOf Pathfinder ''C'' [sampleUndated, sampleEarly, sampleLate])
            \<or> 5 < length (recordsOf Kiss ''C'' [sampleUndated, sampleEarly, sampleLate]))"
    and "0 < length (entriesOf ''A'' sampleEntries)"
    by (simp_all add: recordsOf_def entriesOf_def sampleUndated_def sampleEarly_def sampleLate_def
        sampleRecord_def sampleEntries_def sampleEntry_def)
  ultimately show ?thesis
    using eligibility_rule [of "''B''" "[sampleUndated, sampleEarly, sampleLate]" sampleEntries "[]"]
      eligibility_rule [of "''C''" "[sampleUndated, sampleEarly, sampleLate]" sampleEntries "[]"]
      eligibility_rule [of "''A''" "[sampleUndated, sampleEarly, sampleLate]" sampleEntries "[]"]
    by simp
qed

text \<open>
  C1, as stated, fails: a salesperson with a single KISS session and no Pathfinder
  session is dropped by the eligibility rule, so the leaderboard over that one filtered
  record has no group at all.
\<close>

theorem leaderboard_total_counterexample:
  "leaderboardStats [sampleLate] FilterAll = []
   \<and> sum_list (map totalSessions (leaderboardStats [sampleLate] FilterAll)) \<noteq> length [sampleLate]"
  by (simp add: leaderboardStats_def statsMapOf_def addSession_def ensureStats_def updateKey_def
      recordSession_def newStats_def withAverages_def keepGroup_def sortBy_def Let_def
      sampleLate_def sampleRecord_def)

text \<open>
  C1, amended. Over any filtered record set, the \<open>totalSessions\<close> of the groups on the
  leaderboard sum to the number of filtered records that carry a salesperson name and
  whose salesperson passes the eligibility rule; before that rule is applied the groups'
  \<open>totalSessions\<close> sum to the number of filtered records that carry a salesperson name.
  Group names are pairwise different and a group's \<open>totalSessions\<close> is the number of
  filtered records with its name, Pathfinder and KISS together, so every counted record
  is in exactly one group. A KISS record always carries a name after normalization;
  Pathfinder records are stored as they arrive.
\<close>

theorem leaderboard_session_total:
  "sum_list (map totalSessions (leaderboardStats filtered tf)) =
     length (filter (\<lambda>r. google_full_name r \<noteq> [] \<and> keptName tf (google_full_name r) filtered) filtered)
   \<and> sum_list (map (totalSessions \<circ> snd) (statsMapOf filtered)) =
       length (filter (\<lambda>r. google_full_name r \<noteq> []) filtered)
   \<and> distinct (map name (leaderboardStats filtered tf))
   \<and> (\<forall>g \<in> set (leaderboardStats filtered tf).
        totalSessions g = length (filter (\<lambda>r. google_full_name r = name g) filtered)
        \<and> totalSessions g = length (pathfinderSessions g) + length (kissSessions g))
   \<and> (fetchedSessions pathfinderRaw kissRaw = Inr sessions \<longrightarrow>
        (\<forall>r \<in> set sessions. sessionType r = Kiss \<longrightarrow> google_full_name r \<noteq> []))"
proof (intro conjI ballI impI)
  show "sum_list (map totalSessions (leaderboardStats filtered tf)) =
     length (filter (\<lambda>r. google_full_name r \<noteq> [] \<and> keptName tf (google_full_name r) filtered) filtered)"
    by (rule leaderboard_sum)
  show "sum_list (map (totalSessions \<circ> snd) (statsMapOf filtered)) =
       length (filter (\<lambda>r. google_full_name r \<noteq> []) filtered)"
    by (rule unfiltered_sum)
  show "distinct (map name (leaderboardStats filtered tf))"
    by (rule leaderboard_distinct)
  show "totalSessions g = length (filter (\<lambda>r. google_full_name r = name g) filtered)"
    if "g \<in> set (leaderboardStats filtered tf)" for g
    using leaderboard_groups [OF that] by (auto simp: group_total)
  show "totalSessions g = length (pathfinderSessions g) + length (kissSessions g)"
    if "g \<in> set (leaderboardStats filtered tf)" for g
    using leaderboard_groups [OF that] group_total(2) by auto
  show "google_full_name r \<noteq> []"
    if "fetchedSessions pathfinderRaw kissRaw = Inr sessions" "r \<in> set sessions" "sessionType r = Kiss"
    for r
    using that by (rule fetched_kiss_named)
qed

theorem leaderboard_session_total_witness:
  "sum_list (map totalSessions (leaderboardStats [sampleUndated, sampleEarly, sampleLate] FilterAll)) = 2
   \<and> sum_list (map totalSessions (leaderboardStats sampleScenario FilterAll)) = length sampleScenario"
proof -
  have "length (filter (\<lambda>r. google_full_name r \<noteq> []
          \<and> keptName FilterAll (google_full_name r) [sampleUndated, sampleEarly, sampleLate])
        [sampleUndated, sampleEarly, sampleLate]) = 2"
    by (simp add: keptName_def recordsOf_def sampleUndated_def sampleEarly_def sampleLate_def
        sampleRecord_def)
  moreover have "length (filter (\<lambda>r. google_full_name r \<noteq> []
          \<and> keptName FilterAll (google_full_name r) sampleScenario) sampleScenario) = length sampleScenario"
    by (simp add: keptName_def recordsOf_def sampleScenario_def sampleRecord_def)
  ultimately show ?thesis
    using leaderboard_session_total [of "[sampleUndated, sampleEarly, sampleLate]" FilterAll]
      leaderboard_session_total [of sampleScenario FilterAll]
    by simp
qed

text \<open>
  C2. The table row and the record detail mark a record complete exactly when
  \<open>step \<ge> total_steps\<close>; the leaderboard counts a session as completed under the same
  test, so the \<open>completedSessions\<close> of every group on the leaderboard is the number of
  its sessions with \<open>step \<ge> total_steps\<close>.
\<close>

theorem completion_status:
  "(isComplete r \<longleftrightarrow> total_steps r \<le> step r)
   \<and> (detailIsComplete r \<longleftrightarrow> total_steps r \<le> step r)
   \<and> completedSessions (recordSession r stats) =
       completedSessions stats + (if total_steps r \<le> step r then 1 else 0)
   \<and> (\<forall>g \<in> set (leaderboardStats sessions tf).
        completedSessions g =
          length (filter (\<lambda>s. total_steps s \<le> step s) (pathfinderSessions g @ kissSessions g)))"
proof (intro conjI ballI)
  show "isComplete r \<longleftrightarrow> total_steps r \<le> step r"
    by (simp add: isComplete_def)
  show "detailIsComplete r \<longleftrightarrow> total_steps r \<le> step r"
    by (simp add: detailIsComplete_def)
  show "completedSessions (recordSession r stats) =
       completedSessions stats + (if total_steps r \<le> step r then 1 else 0)"
    by (simp add: recordSession_def Let_def)
  show "completedSessions g =
      length (filter (\<lambda>s. total_steps s \<le> step s) (pathfinderSessions g @ kissSessions g))"
    if "g \<in> set (leaderboardStats sessions tf)" for g
    using leaderboard_groups [OF that] group_completed by auto
qed

theorem completion_status_witness:
  "isComplete (sampleRecord ''A'' Pathfinder 8 8 None)
   \<and> \<not> detailIsComplete (sampleRecord ''A'' Pathfinder 2 8 None)
   \<and> map completedSessions (leaderboardStats sampleScenario FilterAll) = [1]"
proof -
  have "\<forall>g \<in> set (leaderboardStats sampleScenario FilterAll).
      completedSessions g =
        length (filter (\<lambda>s. total_steps s \<le> step s) (pathfinderSessions g @ kissSessions g))"
    using completion_status [of _ _ sampleScenario FilterAll] by blast
  then have "map completedSessions (leaderboardStats sampleScenario FilterAll) =
      map (\<lambda>g. length (filter (\<lambda>s. total_steps s \<le> step s) (pathfinderSessions g @ kissSessions g)))
        (leaderboardStats sampleScenario FilterAll)"
    by simp
  then have "map completedSessions (leaderboardStats sampleScenario FilterAll) = [1]"
    by (simp only: scenario_completed)
  moreover have "total_steps (sampleRecord ''A'' Pathfinder 8 8 None) \<le> step (sampleRecord ''A'' Pathfinder 8 8 None)"
    "\<not> total_steps (sampleRecord ''A'' Pathfinder 2 8 None) \<le> step (sampleRecord ''A'' Pathfinder 2 8 None)"
    by (simp_all add: sampleRecord_def)
  ultimately show ?thesis
    using completion_status [of "sampleRecord ''A'' Pathfinder 8 8 None" _ sampleScenario FilterAll]
      completion_status [of "sampleRecord ''A'' Pathfinder 2 8 None" _ sampleScenario FilterAll]
    by blast
qed

end
